theory Spec2Isabelle
  imports Complex_Main
begin

section \<open>Knee CT bone segmentation: arrays, numbers and library interface\<close>

text \<open>
  The development embeds \<^verbatim>\<open>src/components/segmentation.py\<close>,
  \<^verbatim>\<open>src/components/analysis.py\<close> and the slice loop of
  \<^verbatim>\<open>src/components/main.py\<close>.  NumPy arrays are records of a shape and the
  elements in C (row-major) order.  Python exceptions are values of \<open>error\<close>.
\<close>

datatype error = IndexError | ValueError | OverflowError | ShapeMismatch

subsection \<open>IEEE binary64 numbers\<close>

text \<open>
  A finite \<^verbatim>\<open>float64\<close> is represented by the rational number it denotes.  Every
  arithmetic operation computes the exact result and rounds it to the nearest number with a
  53-bit significand, ties to the even significand.  Overflow, subnormal numbers, NaN and
  infinities are outside this model; division by zero is handled where the source divides.
\<close>

type_synonym double = rat

function ilog2 :: "int \<Rightarrow> int" where
  \<comment> \<open>\<open>\<lfloor>log\<^sub>2 n\<rfloor>\<close> for \<open>1 \<le> n\<close>\<close>
  "ilog2 n = (if n < 2 then 0 else 1 + ilog2 (n div 2))"
  by pat_completeness auto
termination
  by (relation "measure nat") auto

declare ilog2.simps [simp del]

definition binary_exponent :: "rat \<Rightarrow> int" where
  \<comment> \<open>\<open>\<lfloor>log\<^sub>2 x\<rfloor>\<close> for \<open>0 < x\<close>\<close>
  "binary_exponent x =
     (if 1 \<le> x then ilog2 \<lfloor>x\<rfloor>
      else - (1 + ilog2 (\<lceil>1 / x\<rceil> - 1)))"

definition pow2 :: "int \<Rightarrow> rat" where
  "pow2 e = (if 0 \<le> e then 2 ^ nat e else 1 / 2 ^ nat (- e))"

definition round_half_even :: "rat \<Rightarrow> int" where
  "round_half_even m =
     (let f = \<lfloor>m\<rfloor>; d = m - of_int f
      in if d < 1 / 2 then f
         else if 1 / 2 < d then f + 1
         else if even f then f else f + 1)"

definition round_double :: "rat \<Rightarrow> double" where
  "round_double x =
     (if x = 0 then 0
      else let e = binary_exponent \<bar>x\<bar> - 52
           in sgn x * of_int (round_half_even (\<bar>x\<bar> / pow2 e)) * pow2 e)"

definition fadd :: "double \<Rightarrow> double \<Rightarrow> double" where
  "fadd a b = round_double (a + b)"

definition fmul :: "double \<Rightarrow> double \<Rightarrow> double" where
  "fmul a b = round_double (a * b)"

definition fdiv :: "double \<Rightarrow> double \<Rightarrow> double" where
  \<comment> \<open>used with \<open>b \<noteq> 0\<close> only\<close>
  "fdiv a b = round_double (a / b)"

definition py_int :: "double \<Rightarrow> int" where
  \<comment> \<open>Python's \<^verbatim>\<open>int(x)\<close> on a float: truncation towards zero\<close>
  "py_int x = (if 0 \<le> x then \<lfloor>x\<rfloor> else \<lceil>x\<rceil>)"

subsection \<open>Three-dimensional arrays\<close>

record 'a volume =
  shape :: "nat \<times> nat \<times> nat"
  cells :: "'a list"

definition voxels :: "nat \<times> nat \<times> nat \<Rightarrow> nat" where
  "voxels s = (case s of (nx, ny, nz) \<Rightarrow> nx * ny * nz)"

definition wf_volume :: "'a volume \<Rightarrow> bool" where
  \<comment> \<open>the invariant of every NumPy array: as many elements as the shape says\<close>
  "wf_volume v = (length (cells v) = voxels (shape v))"

definition ravel :: "nat \<times> nat \<times> nat \<Rightarrow> nat \<times> nat \<times> nat \<Rightarrow> nat" where
  "ravel s pos = (case s of (nx, ny, nz) \<Rightarrow> case pos of (x, y, z) \<Rightarrow> (x * ny + y) * nz + z)"

definition unravel :: "nat \<times> nat \<times> nat \<Rightarrow> nat \<Rightarrow> nat \<times> nat \<times> nat" where
  "unravel s p = (case s of (nx, ny, nz) \<Rightarrow> (p div (ny * nz), (p div nz) mod ny, p mod nz))"

definition eq_label :: "int volume \<Rightarrow> int \<Rightarrow> bool volume" where
  \<comment> \<open>\<^verbatim>\<open>segmentation_volume == label\<close>\<close>
  "eq_label v l = \<lparr>shape = shape v, cells = map (\<lambda>x. x = l) (cells v)\<rparr>"

definition zeros_like :: "'a volume \<Rightarrow> int volume" where
  \<comment> \<open>\<^verbatim>\<open>np.zeros_like(v)\<close>; the label values 0, 1, 2 are kept as integers\<close>
  "zeros_like v = \<lparr>shape = shape v, cells = replicate (length (cells v)) 0\<rparr>"

definition assign_mask :: "'a volume \<Rightarrow> bool volume \<Rightarrow> 'a \<Rightarrow> error + 'a volume" where
  \<comment> \<open>\<^verbatim>\<open>result[mask] = c\<close>; a boolean index of another shape raises IndexError\<close>
  "assign_mask r m c =
     (if shape m \<noteq> shape r \<or> length (cells m) \<noteq> length (cells r) then Inl IndexError
      else Inr (r\<lparr>cells := map2 (\<lambda>b x. if b then c else x) (cells m) (cells r)\<rparr>))"

definition mask_and :: "bool volume \<Rightarrow> bool volume \<Rightarrow> bool volume" where
  "mask_and a b = a\<lparr>cells := map2 (\<lambda>p q. p \<and> q) (cells a) (cells b)\<rparr>"

definition mask_or :: "bool volume \<Rightarrow> bool volume \<Rightarrow> bool volume" where
  "mask_or a b = a\<lparr>cells := map2 (\<lambda>p q. p \<or> q) (cells a) (cells b)\<rparr>"

definition mask_not :: "bool volume \<Rightarrow> bool volume" where
  "mask_not a = a\<lparr>cells := map Not (cells a)\<rparr>"

definition count_true :: "bool volume \<Rightarrow> nat" where
  \<comment> \<open>\<^verbatim>\<open>np.sum(mask)\<close>\<close>
  "count_true m = length (filter (\<lambda>b. b) (cells m))"

definition copy_where :: "bool volume \<Rightarrow> bool volume \<Rightarrow> bool volume \<Rightarrow> bool volume" where
  \<comment> \<open>\<^verbatim>\<open>target[sel] = source[sel]\<close> for masks of one shape\<close>
  "copy_where sel source target =
     target\<lparr>cells := map2 (\<lambda>s (a, t). if s then a else t) (cells sel) (zip (cells source) (cells target))\<rparr>"

subsection \<open>Binary dilation\<close>

text \<open>
  \<^verbatim>\<open>scipy.ndimage.binary_dilation(input, structure=np.ones(k))\<close> with the default
  origin and border value 0: an output voxel is set when the box of \<open>k\<close> voxels, centred at
  index \<open>k div 2\<close> on each axis, meets a set input voxel inside the array.
\<close>

definition dilated_at :: "nat \<times> nat \<times> nat \<Rightarrow> bool volume \<Rightarrow> nat \<times> nat \<times> nat \<Rightarrow> bool" where
  "dilated_at k m pos =
     (case k of (kx, ky, kz) \<Rightarrow> case shape m of (nx, ny, nz) \<Rightarrow> case pos of (x, y, z) \<Rightarrow>
        (\<exists>a \<in> {0..<kx}. \<exists>b \<in> {0..<ky}. \<exists>c \<in> {0..<kz}.
           a \<le> x + kx div 2 \<and> x + kx div 2 - a < nx \<and>
           b \<le> y + ky div 2 \<and> y + ky div 2 - b < ny \<and>
           c \<le> z + kz div 2 \<and> z + kz div 2 - c < nz \<and>
           cells m ! ravel (shape m) (x + kx div 2 - a, y + ky div 2 - b, z + kz div 2 - c)))"

definition binary_dilation :: "nat \<times> nat \<times> nat \<Rightarrow> bool volume \<Rightarrow> bool volume" where
  "binary_dilation k m =
     m\<lparr>cells := map (\<lambda>p. dilated_at k m (unravel (shape m) p)) [0..<voxels (shape m)]\<rparr>"

definition bind_result :: "error + 'a \<Rightarrow> ('a \<Rightarrow> error + 'b) \<Rightarrow> error + 'b" where
  "bind_result r f = (case r of Inl e \<Rightarrow> Inl e | Inr x \<Rightarrow> f x)"

section \<open>segmentation.py: mask expansion and randomisation\<close>

definition paint_labels :: "'a volume \<Rightarrow> bool volume \<Rightarrow> bool volume \<Rightarrow> error + int volume" where
  \<comment> \<open>\<^verbatim>\<open>result = np.zeros_like(v); result[tibia_seg] = 1; result[femur_seg] = 2\<close>\<close>
  "paint_labels v tibia_seg femur_seg =
     bind_result (assign_mask (zeros_like v) tibia_seg 1) (\<lambda>result.
       assign_mask result femur_seg 2)"

definition kernel_size :: "double \<Rightarrow> double \<Rightarrow> error + nat" where
  \<comment> \<open>\<^verbatim>\<open>max(1, int(np.ceil(expansion_mm / vs)))\<close>; a zero spacing gives inf or nan,
      which \<^verbatim>\<open>int\<close> refuses\<close>
  "kernel_size expansion_mm vs =
     (if vs = 0 then (if expansion_mm = 0 then Inl ValueError else Inl OverflowError)
      else Inr (nat (max 1 \<lceil>fdiv expansion_mm vs\<rceil>)))"

definition kernel_sizes :: "double \<times> double \<times> double \<Rightarrow> double \<Rightarrow> error + nat \<times> nat \<times> nat" where
  "kernel_sizes voxel_sizes expansion_mm =
     (case voxel_sizes of (sx, sy, sz) \<Rightarrow>
        bind_result (kernel_size expansion_mm sx) (\<lambda>kx.
        bind_result (kernel_size expansion_mm sy) (\<lambda>ky.
        bind_result (kernel_size expansion_mm sz) (\<lambda>kz. Inr (kx, ky, kz)))))"

definition expand_with_kernel :: "int volume \<Rightarrow> nat \<times> nat \<times> nat \<Rightarrow> error + int volume" where
  "expand_with_kernel segmentation_volume k =
     (let tibia_seg = eq_label segmentation_volume 1;
          femur_seg = eq_label segmentation_volume 2;
          tibia_expanded = binary_dilation k tibia_seg;
          femur_expanded = binary_dilation k femur_seg;
          overlap = mask_and tibia_expanded femur_expanded;
          tibia_expanded = copy_where overlap tibia_seg tibia_expanded;
          femur_expanded = copy_where overlap femur_seg femur_expanded
      in paint_labels segmentation_volume tibia_expanded femur_expanded)"

definition expand_segmentation ::
  "int volume \<Rightarrow> double \<times> double \<times> double \<Rightarrow> double \<Rightarrow> error + int volume" where
  "expand_segmentation segmentation_volume voxel_sizes expansion_mm =
     bind_result (kernel_sizes voxel_sizes expansion_mm) (expand_with_kernel segmentation_volume)"

text \<open>
  The global NumPy generator is an explicit state: the sequence of the draws still to come,
  each a \<^verbatim>\<open>float64\<close> of the half-open interval from 0 to 1.
\<close>

type_synonym rng = "nat \<Rightarrow> double"

definition valid_rng :: "rng \<Rightarrow> bool" where
  "valid_rng g = (\<forall>i. 0 \<le> g i \<and> g i < 1)"

definition random_sample :: "nat \<Rightarrow> rng \<Rightarrow> double list \<times> rng" where
  \<comment> \<open>\<^verbatim>\<open>np.random.random(n)\<close>\<close>
  "random_sample n g = (map g [0..<n], \<lambda>i. g (i + n))"

fun scatter :: "bool list \<Rightarrow> bool list \<Rightarrow> bool list" where
  \<comment> \<open>\<^verbatim>\<open>temp = zeros; temp[region] = values\<close>: the values go to the set positions
      of the region in C order (there are as many values as set positions)\<close>
  "scatter [] vs = []"
| "scatter (False # ms) vs = False # scatter ms vs"
| "scatter (True # ms) [] = False # scatter ms []"
| "scatter (True # ms) (v # vs) = v # scatter ms vs"

definition randomize_label ::
  "int volume \<Rightarrow> int volume \<Rightarrow> double \<Rightarrow> int \<Rightarrow> int volume \<times> rng \<Rightarrow> error + int volume \<times> rng" where
  \<comment> \<open>the body of \<^verbatim>\<open>for label in [1, 2]\<close>\<close>
  "randomize_label original_segmentation expanded_segmentation random_value label st =
     (case st of (result, g) \<Rightarrow>
        let original_label_mask = eq_label original_segmentation label;
            expanded_label_mask = eq_label expanded_segmentation label;
            expansion_region = mask_and expanded_label_mask (mask_not original_label_mask);
            expansion_size = count_true expansion_region
        in if 0 < expansion_size then
             (case random_sample expansion_size g of (draws, g') \<Rightarrow>
                let random_mask = map (\<lambda>d. d < random_value) draws;
                    temp_expansion = expansion_region\<lparr>cells := scatter (cells expansion_region) random_mask\<rparr>
                in bind_result (assign_mask result (mask_or original_label_mask temp_expansion) label)
                     (\<lambda>result. Inr (result, g')))
           else bind_result (assign_mask result original_label_mask label) (\<lambda>result. Inr (result, g)))"

definition generate_random_mask ::
  "int volume \<Rightarrow> int volume \<Rightarrow> double \<Rightarrow> rng \<Rightarrow> error + int volume \<times> rng" where
  \<comment> \<open>Both volumes have one shape in every call of the pipeline.  For other pairs NumPy
      broadcasts or raises; the model reports them as \<open>ShapeMismatch\<close>.\<close>
  "generate_random_mask original_segmentation expanded_segmentation random_value g =
     (if shape original_segmentation \<noteq> shape expanded_segmentation
         \<or> length (cells original_segmentation) \<noteq> length (cells expanded_segmentation)
      then Inl ShapeMismatch
      else let random_value = max 0 (min 1 random_value);
               result = zeros_like original_segmentation
           in bind_result
                (randomize_label original_segmentation expanded_segmentation random_value 1 (result, g))
                (randomize_label original_segmentation expanded_segmentation random_value 2))"

section \<open>Two-dimensional slices and the library operations\<close>

record 'a image =
  extent :: "nat \<times> nat"
  pixels :: "'a list"

definition take_slice :: "'a volume \<Rightarrow> nat \<Rightarrow> error + 'a image" where
  \<comment> \<open>\<^verbatim>\<open>data[:, i, :]\<close>\<close>
  "take_slice v i =
     (case shape v of (nx, ny, nz) \<Rightarrow>
        if ny \<le> i then Inl IndexError
        else Inr \<lparr>extent = (nx, nz),
                  pixels = map (\<lambda>q. cells v ! ravel (shape v) (q div nz, i, q mod nz)) [0..<nx * nz]\<rparr>)"

definition assign_slice_mask :: "'a volume \<Rightarrow> nat \<Rightarrow> bool image \<Rightarrow> 'a \<Rightarrow> error + 'a volume" where
  \<comment> \<open>\<^verbatim>\<open>v[:, i, :][mask] = c\<close>: the slice is a view, the write reaches the volume\<close>
  "assign_slice_mask v i slice_mask c =
     (case shape v of (nx, ny, nz) \<Rightarrow>
        if ny \<le> i \<or> extent slice_mask \<noteq> (nx, nz) \<or> length (pixels slice_mask) \<noteq> nx * nz
        then Inl IndexError
        else Inr (v\<lparr>cells := map (\<lambda>p. case unravel (shape v) p of (x, y, z) \<Rightarrow>
                                      if y = i \<and> pixels slice_mask ! (x * nz + z) then c else cells v ! p)
                                [0..<length (cells v)]\<rparr>))"

definition threshold :: "double image \<Rightarrow> double \<Rightarrow> bool image" where
  \<comment> \<open>\<^verbatim>\<open>slice_data > t\<close>\<close>
  "threshold img t = \<lparr>extent = extent img, pixels = map (\<lambda>v. t < v) (pixels img)\<rparr>"

definition clear_from :: "nat \<Rightarrow> bool image \<Rightarrow> bool image" where
  \<comment> \<open>\<^verbatim>\<open>mask[:, j:] = False\<close> on a copy\<close>
  "clear_from j img =
     img\<lparr>pixels := map (\<lambda>q. if j \<le> q mod snd (extent img) then False else pixels img ! q)
                       [0..<length (pixels img)]\<rparr>"

definition clear_before :: "nat \<Rightarrow> bool image \<Rightarrow> bool image" where
  \<comment> \<open>\<^verbatim>\<open>mask[:, :j] = False\<close> on a copy\<close>
  "clear_before j img =
     img\<lparr>pixels := map (\<lambda>q. if q mod snd (extent img) < j then False else pixels img ! q)
                       [0..<length (pixels img)]\<rparr>"

definition column_sums :: "bool image \<Rightarrow> int list" where
  \<comment> \<open>\<^verbatim>\<open>np.sum(mask, axis=0)\<close>\<close>
  "column_sums img =
     (case extent img of (h, w) \<Rightarrow>
        map (\<lambda>j. \<Sum>i \<leftarrow> [0..<h]. if pixels img ! (i * w + j) then 1 else 0) [0..<w])"

definition np_max :: "double image \<Rightarrow> error + double" where
  \<comment> \<open>\<^verbatim>\<open>np.max\<close> raises ValueError on an array without elements\<close>
  "np_max img = (if pixels img = [] then Inl ValueError else Inr (Max (set (pixels img))))"

definition argmin :: "'a::linorder list \<Rightarrow> nat" where
  \<comment> \<open>\<^verbatim>\<open>np.argmin\<close>: the first index of the least element\<close>
  "argmin xs = length (takeWhile (\<lambda>x. x \<noteq> Min (set xs)) xs)"

text \<open>
  The morphological operators and the Gaussian filter come from scikit-image and SciPy.
  They are parameters of the model; the smoothed profile may have any ordered element type.
\<close>

record 'p library =
  remove_small_objects2 :: "nat \<Rightarrow> bool image \<Rightarrow> bool image"
  binary_closing_disk :: "nat \<Rightarrow> bool image \<Rightarrow> bool image"
  gaussian_filter1d :: "nat \<Rightarrow> int list \<Rightarrow> 'p list"
  binary_fill_holes :: "bool volume \<Rightarrow> bool volume"
  binary_closing :: "nat \<times> nat \<times> nat \<Rightarrow> bool volume \<Rightarrow> bool volume"
  remove_small_objects3 :: "nat \<Rightarrow> bool volume \<Rightarrow> bool volume"

section \<open>segmentation.py: slices\<close>

definition create_bone_mask :: "'p library \<Rightarrow> double image \<Rightarrow> double \<Rightarrow> nat \<Rightarrow> bool image" where
  "create_bone_mask lib slice_data bone_threshold min_size =
     (let bone_mask = threshold slice_data bone_threshold;
          bone_mask = remove_small_objects2 lib min_size bone_mask;
          bone_mask = binary_closing_disk lib 2 bone_mask
      in bone_mask)"

definition local_minima :: "'p::linorder list \<Rightarrow> nat list" where
  \<comment> \<open>the list comprehension over \<^verbatim>\<open>range(2, len(middle_profile) - 2)\<close>\<close>
  "local_minima middle_profile =
     filter (\<lambda>j. middle_profile ! j < middle_profile ! (j - 1)
                 \<and> middle_profile ! j < middle_profile ! (j + 1))
       [2..<length middle_profile - 2]"

definition find_joint_position :: "('p::linorder) library \<Rightarrow> bool image \<Rightarrow> nat \<Rightarrow> nat" where
  "find_joint_position lib bone_mask height =
     (let vertical_profile = column_sums bone_mask;
          smooth_profile = gaussian_filter1d lib 5 vertical_profile;
          middle_start = height div 3;
          middle_end = 2 * height div 3;
          middle_profile = drop middle_start (take middle_end smooth_profile)
      in if 5 < length middle_profile then
           (let min_indices = local_minima middle_profile
            in if min_indices \<noteq> [] then
                 middle_start + min_indices ! argmin (map (\<lambda>j. middle_profile ! j) min_indices)
               else height div 2)
         else height div 2)"

definition segment_slice ::
  "('p::linorder) library \<Rightarrow> double image \<Rightarrow> double \<Rightarrow> error + (bool image \<times> bool image) option" where
  \<comment> \<open>the pair is (femur_mask, tibia_mask); \<open>None\<close> stands for \<^verbatim>\<open>(None, None)\<close>\<close>
  "segment_slice lib slice_data bone_threshold =
     (let height = snd (extent slice_data);
          bone_mask = create_bone_mask lib slice_data bone_threshold 50
      in bind_result (np_max slice_data) (\<lambda>m.
           if m < bone_threshold then Inr None
           else
             (let joint_position = find_joint_position lib bone_mask height;
                  femur_mask = remove_small_objects2 lib 100 (clear_from joint_position bone_mask);
                  tibia_mask = remove_small_objects2 lib 100 (clear_before joint_position bone_mask)
              in Inr (Some (femur_mask, tibia_mask)))))"

section \<open>segmentation.py: whole-volume stages\<close>

definition apply_3d_postprocessing :: "'p library \<Rightarrow> int volume \<Rightarrow> error + int volume" where
  "apply_3d_postprocessing lib segmentation_volume =
     (let tibia_seg = eq_label segmentation_volume 1;
          femur_seg = eq_label segmentation_volume 2;
          tibia_seg = binary_fill_holes lib tibia_seg;
          femur_seg = binary_fill_holes lib femur_seg;
          tibia_seg = binary_closing lib (3, 3, 3) tibia_seg;
          femur_seg = binary_closing lib (3, 3, 3) femur_seg;
          tibia_seg = remove_small_objects3 lib 1000 tibia_seg;
          femur_seg = remove_small_objects3 lib 1000 femur_seg
      in paint_labels segmentation_volume tibia_seg femur_seg)"

fun for_each :: "('s \<Rightarrow> nat \<Rightarrow> error + 's) \<Rightarrow> nat list \<Rightarrow> 's \<Rightarrow> error + 's" where
  \<comment> \<open>a \<^verbatim>\<open>for\<close> loop over slice indices; an exception ends it\<close>
  "for_each body [] s = Inr s"
| "for_each body (i # rest) s = bind_result (body s i) (for_each body rest)"

definition fallback_slice :: "'p library \<Rightarrow> double volume \<Rightarrow> int volume \<Rightarrow> nat \<Rightarrow> error + int volume" where
  \<comment> \<open>the loop body of \<^verbatim>\<open>fallback_segmentation\<close>\<close>
  "fallback_slice lib data segmentation_volume i =
     bind_result (take_slice data i) (\<lambda>slice_data.
       let bone_mask = threshold slice_data 150;
           height = snd (extent slice_data);
           mid_point = height div 2;
           femur_mask = remove_small_objects2 lib 50 (clear_from mid_point bone_mask);
           tibia_mask = remove_small_objects2 lib 50 (clear_before mid_point bone_mask)
       in bind_result (assign_slice_mask segmentation_volume i tibia_mask 1) (\<lambda>segmentation_volume.
            assign_slice_mask segmentation_volume i femur_mask 2))"

definition fallback_segmentation ::
  "'p library \<Rightarrow> double volume \<Rightarrow> nat \<Rightarrow> nat \<Rightarrow> error + int volume" where
  "fallback_segmentation lib data start_slice end_slice =
     bind_result (for_each (fallback_slice lib data) [start_slice..<end_slice] (zeros_like data))
       (\<lambda>segmentation_volume.
          let tibia_seg = binary_closing lib (5, 5, 5) (eq_label segmentation_volume 1);
              femur_seg = binary_closing lib (5, 5, 5) (eq_label segmentation_volume 2);
              tibia_seg = binary_fill_holes lib tibia_seg;
              femur_seg = binary_fill_holes lib femur_seg;
              tibia_seg = remove_small_objects3 lib 1000 tibia_seg;
              femur_seg = remove_small_objects3 lib 1000 femur_seg
          in paint_labels data tibia_seg femur_seg)"

section \<open>main.py: the slice loop of segment_knee\<close>

definition assemble_slice ::
  "('p::linorder) library \<Rightarrow> double volume \<Rightarrow> int volume \<Rightarrow> nat \<Rightarrow> error + int volume" where
  \<comment> \<open>the body of \<^verbatim>\<open>for i in range(start_slice, end_slice)\<close>, with the default threshold 200\<close>
  "assemble_slice lib data segmentation_volume i =
     bind_result (take_slice data i) (\<lambda>slice_data.
     bind_result (segment_slice lib slice_data 200) (\<lambda>masks.
       case masks of
         None \<Rightarrow> Inr segmentation_volume
       | Some (femur_mask, tibia_mask) \<Rightarrow>
           bind_result (assign_slice_mask segmentation_volume i tibia_mask 1) (\<lambda>segmentation_volume.
             assign_slice_mask segmentation_volume i femur_mask 2)))"

definition assemble_volume :: "('p::linorder) library \<Rightarrow> double volume \<Rightarrow> error + int volume" where
  "assemble_volume lib data =
     (let segmentation_volume = zeros_like data;
          extent_y = of_nat (fst (snd (shape data)));
          start_slice = nat (py_int (fmul extent_y (round_double (2 / 10))));
          end_slice = nat (py_int (fmul extent_y (round_double (8 / 10))))
      in for_each (assemble_slice lib data) [start_slice..<end_slice] segmentation_volume)"

section \<open>analysis.py: lowest points of the tibia\<close>

type_synonym point = "double \<times> double \<times> double"

type_synonym voxel = "int \<times> int \<times> int"

definition np_where :: "bool volume \<Rightarrow> (nat \<times> nat \<times> nat) list" where
  \<comment> \<open>\<^verbatim>\<open>np.where(mask)\<close>: the indices of the set voxels in C order\<close>
  "np_where m = map (unravel (shape m)) (filter (\<lambda>p. cells m ! p) [0..<length (cells m)])"

definition to_mm :: "double \<times> double \<times> double \<Rightarrow> nat \<times> nat \<times> nat \<Rightarrow> point" where
  \<comment> \<open>a row of \<^verbatim>\<open>tibia_points\<close>: index times spacing, per axis\<close>
  "to_mm voxel_sizes idx =
     (case voxel_sizes of (sx, sy, sz) \<Rightarrow> case idx of (x, y, z) \<Rightarrow>
        (fmul (of_nat x) sx, fmul (of_nat y) sy, fmul (of_nat z) sz))"

definition lowest :: "point list \<Rightarrow> point option" where
  \<comment> \<open>\<^verbatim>\<open>points[np.argmin(points[:, 2])]\<close>, or None for no points\<close>
  "lowest points =
     (if points \<noteq> [] then Some (points ! argmin (map (\<lambda>(x, y, z). z) points)) else None)"

definition to_voxel_coord :: "double \<Rightarrow> double \<Rightarrow> error + int" where
  \<comment> \<open>\<^verbatim>\<open>int(c / s)\<close>; a zero spacing gives nan or inf, which \<^verbatim>\<open>int\<close> refuses\<close>
  "to_voxel_coord c s =
     (if s = 0 then (if c = 0 then Inl ValueError else Inl OverflowError)
      else Inr (py_int (fdiv c s)))"

definition to_voxel :: "double \<times> double \<times> double \<Rightarrow> point option \<Rightarrow> error + voxel option" where
  "to_voxel voxel_sizes lowest_point =
     (case lowest_point of
        None \<Rightarrow> Inr None
      | Some (px, py, pz) \<Rightarrow>
          (case voxel_sizes of (sx, sy, sz) \<Rightarrow>
             bind_result (to_voxel_coord px sx) (\<lambda>vx.
             bind_result (to_voxel_coord py sy) (\<lambda>vy.
             bind_result (to_voxel_coord pz sz) (\<lambda>vz. Inr (Some (vx, vy, vz)))))))"

definition find_tibia_lowest_points ::
  "(double list \<Rightarrow> double) \<Rightarrow> int volume \<Rightarrow> double \<times> double \<times> double
     \<Rightarrow> error + point option \<times> point option \<times> voxel option \<times> voxel option" where
  \<comment> \<open>The first argument is \<^verbatim>\<open>np.mean\<close>.  The result is
      (medial_lowest, lateral_lowest, medial_voxel, lateral_voxel).\<close>
  "find_tibia_lowest_points np_mean segmentation_volume voxel_sizes =
     (let tibia_mask = eq_label segmentation_volume 1
      in if count_true tibia_mask = 0 then Inr (None, None, None, None)
         else
           (let tibia_indices = np_where tibia_mask;
                tibia_points = map (to_mm voxel_sizes) tibia_indices;
                center_x = np_mean (map fst tibia_points);
                lateral_points = filter (\<lambda>pt. fst pt < center_x) tibia_points;
                medial_points = filter (\<lambda>pt. center_x \<le> fst pt) tibia_points;
                lateral_lowest = lowest lateral_points;
                medial_lowest = lowest medial_points
            in bind_result (to_voxel voxel_sizes lateral_lowest) (\<lambda>lateral_voxel.
               bind_result (to_voxel voxel_sizes medial_lowest) (\<lambda>medial_voxel.
                 Inr (medial_lowest, lateral_lowest, medial_voxel, lateral_voxel)))))"

definition mean_sequential :: "double list \<Rightarrow> double" where
  \<comment> \<open>\<^verbatim>\<open>np.mean\<close> of a \<^verbatim>\<open>float64\<close> array of fewer than eight elements: the sum is
      accumulated from the left, each step rounded, then divided by the count (the array
      is not empty where the Tibia Landmark Finder calls it)\<close>
  "mean_sequential xs = fdiv (foldl fadd 0 xs) (of_nat (length xs))"

section \<open>Notions used in the statements\<close>

definition label_volume :: "int volume \<Rightarrow> bool" where
  \<comment> \<open>every voxel carries background 0, tibia 1 or femur 2\<close>
  "label_volume v = (\<forall>x \<in> set (cells v). x = 0 \<or> x = 1 \<or> x = 2)"

definition same_shape :: "'a volume \<Rightarrow> 'b volume \<Rightarrow> bool" where
  "same_shape a b = (shape a = shape b \<and> length (cells a) = length (cells b))"

definition region_subset :: "int \<Rightarrow> int volume \<Rightarrow> int volume \<Rightarrow> bool" where
  \<comment> \<open>the voxels labelled \<open>l\<close> in \<open>a\<close> are labelled \<open>l\<close> in \<open>b\<close>\<close>
  "region_subset l a b = (\<forall>(x, y) \<in> set (zip (cells a) (cells b)). x = l \<longrightarrow> y = l)"

definition volume_of :: "error + 'a \<times> rng \<Rightarrow> error + 'a" where
  \<comment> \<open>the array of a result that also carries the generator\<close>
  "volume_of r = map_sum (\<lambda>e. e) fst r"

definition well_labelled :: "int volume \<Rightarrow> bool" where
  \<comment> \<open>labels from 0, 1, 2 only, and the tibia mask and the femur mask share no voxel\<close>
  "well_labelled v = (label_volume v \<and> count_true (mask_and (eq_label v 1) (eq_label v 2)) = 0)"

definition identity_library :: "int library" where
  \<comment> \<open>a library whose operators change nothing; it instantiates the parameters in examples\<close>
  "identity_library =
     \<lparr>remove_small_objects2 = (\<lambda>n m. m), binary_closing_disk = (\<lambda>n m. m),
      gaussian_filter1d = (\<lambda>s xs. xs), binary_fill_holes = (\<lambda>m. m),
      binary_closing = (\<lambda>k m. m), remove_small_objects3 = (\<lambda>n m. m)\<rparr>"

definition middle_profile :: "'p library \<Rightarrow> bool image \<Rightarrow> nat \<Rightarrow> 'p list" where
  \<comment> \<open>the smoothed profile restricted to the middle third, as the Joint Locator scans it\<close>
  "middle_profile lib bone_mask height =
     drop (height div 3) (take (2 * height div 3) (gaussian_filter1d lib 5 (column_sums bone_mask)))"

definition dip_mask :: "nat \<Rightarrow> nat \<Rightarrow> nat \<Rightarrow> bool image" where
  \<comment> \<open>an example bone mask of \<open>h\<close> rows and \<open>w\<close> columns: bone everywhere except column \<open>d\<close>\<close>
  "dip_mask h w d = \<lparr>extent = (h, w), pixels = map (\<lambda>q. q mod w \<noteq> d) [0..<h * w]\<rparr>"

definition tabulated_gaussian_filter1d :: "nat \<Rightarrow> int list \<Rightarrow> int list" where
  \<comment> \<open>\<^verbatim>\<open>scipy.ndimage.gaussian_filter1d(profile, sigma=5)\<close> on the column profiles of four
      example masks.  SciPy correlates with the normalised Gaussian of radius
      \<^verbatim>\<open>int(4.0 * 5 + 0.5) = 20\<close>, extends the profile by reflection, and stores the result in
      the \<^verbatim>\<open>int64\<close> type of \<^verbatim>\<open>np.sum(bone_mask, axis=0)\<close>, which truncates.
      Before truncation the profile of value 100 with a zero at index 7 of 16 smooths to
      94.79, 94.54, 94.08, 93.50, 92.88, 92.36, 92.01, 91.91, 92.08, 92.52, 93.16, 93.93,
      94.71, 95.41, 95.93, 96.20; the one with a zero at index 8 of 18 smooths to
      96.20, 95.93, 95.41, 94.71, 93.93, 93.18, 92.55, 92.13, 91.99, 92.15, 92.60, 93.28,
      94.12, 95.00, 95.84, 96.56, 97.07, 97.34; the same profiles of value 1 smooth to a
      hundredth of these, all below 1.
      Profiles outside the table are returned as they are.\<close>
  "tabulated_gaussian_filter1d sigma profile =
     (if sigma = 5 \<and> profile = replicate 7 100 @ [0] @ replicate 8 100
      then [94, 94, 94, 93, 92, 92, 92, 91, 92, 92, 93, 93, 94, 95, 95, 96]
      else if sigma = 5 \<and> profile = replicate 8 100 @ [0] @ replicate 9 100
      then [96, 95, 95, 94, 93, 93, 92, 92, 91, 92, 92, 93, 94, 95, 95, 96, 97, 97]
      else if sigma = 5 \<and> profile = replicate 7 1 @ [0] @ replicate 8 1
      then replicate 16 0
      else if sigma = 5 \<and> profile = replicate 8 1 @ [0] @ replicate 9 1
      then replicate 18 0
      else profile)"

definition scipy_library :: "int library" where
  \<comment> \<open>the example library with the Gaussian filter of SciPy on the tabulated profiles\<close>
  "scipy_library = identity_library\<lparr>gaussian_filter1d := tabulated_gaussian_filter1d\<rparr>"

definition tibia_points :: "int volume \<Rightarrow> double \<times> double \<times> double \<Rightarrow> point list" where
  \<comment> \<open>the rows of \<^verbatim>\<open>tibia_points\<close> in the Tibia Landmark Finder\<close>
  "tibia_points segmentation_volume voxel_sizes =
     map (to_mm voxel_sizes) (np_where (eq_label segmentation_volume 1))"

definition tenth :: double where
  \<comment> \<open>the \<^verbatim>\<open>float64\<close> written 0.1, that is 3602879701896397 / 2^55\<close>
  "tenth = round_double (1 / 10)"

definition overlap_rule :: "int volume \<Rightarrow> nat \<times> nat \<times> nat \<Rightarrow> int volume \<Rightarrow> bool" where
  \<comment> \<open>a voxel that the dilation of a label reaches misses that label in \<open>r\<close> only when
      the dilation of the other label reaches it too and it did not hold the label in \<open>seg\<close>\<close>
  "overlap_rule seg k r =
     (\<forall>p < length (cells seg).
        (cells (binary_dilation k (eq_label seg 1)) ! p \<and> cells r ! p \<noteq> 1
           \<longrightarrow> cells (binary_dilation k (eq_label seg 2)) ! p \<and> cells seg ! p \<noteq> 1)
      \<and> (cells (binary_dilation k (eq_label seg 2)) ! p \<and> cells r ! p \<noteq> 2
           \<longrightarrow> cells (binary_dilation k (eq_label seg 1)) ! p \<and> cells seg ! p \<noteq> 2))"

definition expanded_label :: "int volume \<Rightarrow> nat \<times> nat \<times> nat \<Rightarrow> nat \<Rightarrow> int" where
  \<comment> \<open>the label of voxel \<open>p\<close> after expansion, from the two dilations and the overlap rule\<close>
  "expanded_label seg k p =
     (let t = cells (binary_dilation k (eq_label seg 1)) ! p;
          f = cells (binary_dilation k (eq_label seg 2)) ! p
      in if (if t \<and> f then cells seg ! p = 2 else f) then 2
         else if (if t \<and> f then cells seg ! p = 1 else t) then 1 else 0)"

section \<open>Arrays and dilation: basic facts\<close>

lemma ravel_unravel:
  assumes "p < nx * ny * nz"
  shows "ravel (nx, ny, nz) (unravel (nx, ny, nz) p) = p"
proof -
  have "p div (ny * nz) = p div (nz * ny)"
    by (simp only: mult.commute)
  also have "\<dots> = (p div nz) div ny"
    by (rule div_mult2_eq)
  finally have e: "p div (ny * nz) = (p div nz) div ny" .
  have "((p div nz) div ny * ny + (p div nz) mod ny) * nz + p mod nz = p div nz * nz + p mod nz"
    by (simp only: div_mult_mod_eq)
  also have "\<dots> = p" by (simp only: div_mult_mod_eq)
  finally show ?thesis
    unfolding ravel_def unravel_def prod.case e .
qed

lemma unravel_bounds:
  assumes "p < nx * ny * nz"
  shows "(case unravel (nx, ny, nz) p of (x, y, z) \<Rightarrow> x < nx \<and> y < ny \<and> z < nz)"
proof -
  from assms have nz: "0 < nz" by (cases nz) simp_all
  from assms have ny: "0 < ny" by (cases ny) simp_all
  from assms have "p < nx * (ny * nz)" by (simp only: mult.assoc)
  then have "p div (ny * nz) < nx"
    by (rule less_mult_imp_div_less)
  then show ?thesis using nz ny by (simp add: unravel_def)
qed

lemma shape_binary_dilation: "shape (binary_dilation k m) = shape m"
  by (simp add: binary_dilation_def)

lemma length_binary_dilation: "length (cells (binary_dilation k m)) = voxels (shape m)"
  by (simp add: binary_dilation_def)

lemma nth_binary_dilation:
  "p < voxels (shape m) \<Longrightarrow>
   cells (binary_dilation k m) ! p = dilated_at k m (unravel (shape m) p)"
  by (simp add: binary_dilation_def)

lemma dilated_at_centre:
  assumes k: "0 < kx" "0 < ky" "0 < kz" and s: "shape m = (nx, ny, nz)"
    and b: "x < nx" "y < ny" "z < nz" and c: "cells m ! ravel (nx, ny, nz) (x, y, z)"
  shows "dilated_at (kx, ky, kz) m (x, y, z)"
proof -
  have "kx div 2 \<in> {0..<kx}" "ky div 2 \<in> {0..<ky}" "kz div 2 \<in> {0..<kz}"
    using k by simp_all
  moreover have "kx div 2 \<le> x + kx div 2 \<and> x + kx div 2 - kx div 2 < nx \<and>
           ky div 2 \<le> y + ky div 2 \<and> y + ky div 2 - ky div 2 < ny \<and>
           kz div 2 \<le> z + kz div 2 \<and> z + kz div 2 - kz div 2 < nz \<and>
           cells m ! ravel (shape m) (x + kx div 2 - kx div 2, y + ky div 2 - ky div 2, z + kz div 2 - kz div 2)"
    using b c s by simp
  ultimately show ?thesis
    unfolding dilated_at_def s prod.case by blast
qed

lemma dilation_extensive:
  assumes p: "p < voxels (shape m)" and k: "0 < kx" "0 < ky" "0 < kz" and c: "cells m ! p"
  shows "cells (binary_dilation (kx, ky, kz) m) ! p"
proof -
  obtain nx ny nz where s: "shape m = (nx, ny, nz)" by (cases "shape m") auto
  from p s have p': "p < nx * ny * nz" by (simp add: voxels_def)
  obtain x y z where u: "unravel (nx, ny, nz) p = (x, y, z)" by (cases "unravel (nx, ny, nz) p") auto
  from unravel_bounds[OF p'] u have b: "x < nx" "y < ny" "z < nz" by simp_all
  from ravel_unravel[OF p'] u have r: "ravel (nx, ny, nz) (x, y, z) = p" by simp
  from c r have c': "cells m ! ravel (nx, ny, nz) (x, y, z)" by simp
  have "dilated_at (kx, ky, kz) m (x, y, z)"
    using k s b c' by (rule dilated_at_centre)
  then show ?thesis using p s u by (simp add: nth_binary_dilation)
qed

lemma dilated_at_unit:
  assumes s: "shape m = (nx, ny, nz)" and b: "x < nx" "y < ny" "z < nz"
  shows "dilated_at (1, 1, 1) m (x, y, z) = cells m ! ravel (nx, ny, nz) (x, y, z)"
  unfolding dilated_at_def s prod.case using b by simp

lemma dilation_unit:
  assumes "wf_volume m"
  shows "binary_dilation (1, 1, 1) m = m"
proof -
  obtain nx ny nz where s: "shape m = (nx, ny, nz)" by (cases "shape m") auto
  have len: "length (cells m) = nx * ny * nz" using assms s by (simp add: wf_volume_def voxels_def)
  have "cells (binary_dilation (1, 1, 1) m) = cells m"
  proof (rule nth_equalityI)
    show "length (cells (binary_dilation (1, 1, 1) m)) = length (cells m)"
      using len s by (simp add: length_binary_dilation voxels_def)
  next
    fix p assume "p < length (cells (binary_dilation (1, 1, 1) m))"
    then have p': "p < nx * ny * nz" using s by (simp add: length_binary_dilation voxels_def)
    obtain x y z where u: "unravel (nx, ny, nz) p = (x, y, z)" by (cases "unravel (nx, ny, nz) p") auto
    from unravel_bounds[OF p'] u have b: "x < nx" "y < ny" "z < nz" by simp_all
    from ravel_unravel[OF p'] u have r: "ravel (nx, ny, nz) (x, y, z) = p" by simp
    have "dilated_at (1, 1, 1) m (x, y, z) = cells m ! p"
      using dilated_at_unit[OF s b] r by simp
    then show "cells (binary_dilation (1, 1, 1) m) ! p = cells m ! p"
      using p' s u by (simp add: nth_binary_dilation voxels_def)
  qed
  then have "binary_dilation (1, 1, 1) m = m\<lparr>cells := cells m\<rparr>"
    by (simp add: binary_dilation_def)
  then show ?thesis by simp
qed

lemma eq_label_simps:
  "shape (eq_label v l) = shape v"
  "length (cells (eq_label v l)) = length (cells v)"
  "p < length (cells v) \<Longrightarrow> cells (eq_label v l) ! p = (cells v ! p = l)"
  by (simp_all add: eq_label_def)

lemma zeros_like_simps:
  "shape (zeros_like v) = shape v"
  "length (cells (zeros_like v)) = length (cells v)"
  "p < length (cells v) \<Longrightarrow> cells (zeros_like v) ! p = 0"
  by (simp_all add: zeros_like_def)

lemma assign_mask_Inr:
  assumes "shape m = shape r" and "length (cells m) = length (cells r)"
  shows "\<exists>r'. assign_mask r m c = Inr r' \<and> shape r' = shape r
           \<and> length (cells r') = length (cells r)
           \<and> (\<forall>p < length (cells r). cells r' ! p = (if cells m ! p then c else cells r ! p))"
  using assms by (simp add: assign_mask_def)

lemma mask_and_simps:
  "shape (mask_and a b) = shape a"
  "length (cells (mask_and a b)) = min (length (cells a)) (length (cells b))"
  "p < length (cells a) \<Longrightarrow> p < length (cells b) \<Longrightarrow>
     cells (mask_and a b) ! p = (cells a ! p \<and> cells b ! p)"
  by (simp_all add: mask_and_def)

lemma mask_or_simps:
  "shape (mask_or a b) = shape a"
  "length (cells (mask_or a b)) = min (length (cells a)) (length (cells b))"
  "p < length (cells a) \<Longrightarrow> p < length (cells b) \<Longrightarrow>
     cells (mask_or a b) ! p = (cells a ! p \<or> cells b ! p)"
  by (simp_all add: mask_or_def)

lemma mask_not_simps:
  "shape (mask_not a) = shape a"
  "length (cells (mask_not a)) = length (cells a)"
  "p < length (cells a) \<Longrightarrow> cells (mask_not a) ! p = (\<not> cells a ! p)"
  by (simp_all add: mask_not_def)

lemma copy_where_simps:
  "shape (copy_where sel src tgt) = shape tgt"
  "length (cells (copy_where sel src tgt)) =
     min (length (cells sel)) (min (length (cells src)) (length (cells tgt)))"
  "p < length (cells sel) \<Longrightarrow> p < length (cells src) \<Longrightarrow> p < length (cells tgt) \<Longrightarrow>
     cells (copy_where sel src tgt) ! p = (if cells sel ! p then cells src ! p else cells tgt ! p)"
  by (simp_all add: copy_where_def)

lemma expand_with_kernel_cells:
  assumes wf: "wf_volume seg"
  shows "\<exists>r. expand_with_kernel seg k = Inr r \<and> shape r = shape seg
            \<and> length (cells r) = length (cells seg)
            \<and> (\<forall>p < length (cells seg). cells r ! p = expanded_label seg k p)"
proof -
  let ?n = "length (cells seg)"
  have n: "voxels (shape seg) = ?n" using wf by (simp add: wf_volume_def)
  define te where "te = binary_dilation k (eq_label seg 1)"
  define fe where "fe = binary_dilation k (eq_label seg 2)"
  define ov where "ov = mask_and te fe"
  define te' where "te' = copy_where ov (eq_label seg 1) te"
  define fe' where "fe' = copy_where ov (eq_label seg 2) fe"
  have lte: "length (cells te) = ?n" "shape te = shape seg"
    by (simp_all add: te_def length_binary_dilation shape_binary_dilation eq_label_simps n)
  have lfe: "length (cells fe) = ?n" "shape fe = shape seg"
    by (simp_all add: fe_def length_binary_dilation shape_binary_dilation eq_label_simps n)
  have lov: "length (cells ov) = ?n" "shape ov = shape seg"
    by (simp_all add: ov_def mask_and_simps lte lfe)
  have lte': "length (cells te') = ?n" "shape te' = shape seg"
    by (simp_all add: te'_def copy_where_simps lov lte eq_label_simps)
  have lfe': "length (cells fe') = ?n" "shape fe' = shape seg"
    by (simp_all add: fe'_def copy_where_simps lov lfe eq_label_simps)
  have cte': "cells te' ! p = (if cells te ! p \<and> cells fe ! p then cells seg ! p = 1 else cells te ! p)"
    if "p < ?n" for p
    using that by (simp add: te'_def ov_def copy_where_simps mask_and_simps lov lte lfe eq_label_simps)
  have cfe': "cells fe' ! p = (if cells te ! p \<and> cells fe ! p then cells seg ! p = 2 else cells fe ! p)"
    if "p < ?n" for p
    using that by (simp add: fe'_def ov_def copy_where_simps mask_and_simps lov lte lfe eq_label_simps)
  obtain r1 where r1: "assign_mask (zeros_like seg) te' 1 = Inr r1" "shape r1 = shape seg"
      "length (cells r1) = ?n"
      "\<forall>p < ?n. cells r1 ! p = (if cells te' ! p then 1 else 0)"
    using assign_mask_Inr[of te' "zeros_like seg" 1]
    by (auto simp: zeros_like_simps lte')
  obtain r2 where r2: "assign_mask r1 fe' 2 = Inr r2" "shape r2 = shape seg"
      "length (cells r2) = ?n"
      "\<forall>p < ?n. cells r2 ! p = (if cells fe' ! p then 2 else cells r1 ! p)"
    using assign_mask_Inr[of fe' r1 2] by (auto simp: r1 lfe')
  have "expand_with_kernel seg k = Inr r2"
    unfolding expand_with_kernel_def paint_labels_def Let_def
    using r1(1) r2(1) by (simp add: bind_result_def te_def fe_def ov_def te'_def fe'_def)
  moreover have "\<forall>p < ?n. cells r2 ! p = expanded_label seg k p"
    using r1(4) r2(4) cte' cfe' by (simp add: expanded_label_def Let_def te_def fe_def)
  ultimately show ?thesis using r2 by blast
qed

section \<open>Mask expansion\<close>

lemma kernel_size_positive:
  assumes "vs \<noteq> 0"
  shows "\<exists>k. kernel_size e vs = Inr k \<and> 0 < k"
  using assms by (simp add: kernel_size_def less_max_iff_disj)

lemma kernel_sizes_positive:
  assumes "sx \<noteq> 0" "sy \<noteq> 0" "sz \<noteq> 0"
  shows "\<exists>kx ky kz. kernel_sizes (sx, sy, sz) e = Inr (kx, ky, kz) \<and> 0 < kx \<and> 0 < ky \<and> 0 < kz"
  using assms by (simp add: kernel_sizes_def kernel_size_def bind_result_def less_max_iff_disj)

lemma kernel_sizes_zero:
  assumes "sx \<noteq> 0" "sy \<noteq> 0" "sz \<noteq> 0"
  shows "kernel_sizes (sx, sy, sz) 0 = Inr (1, 1, 1)"
  using assms by (simp add: kernel_sizes_def kernel_size_def bind_result_def fdiv_def round_double_def)

lemma region_subset_nth:
  assumes "length (cells a) = length (cells b)"
  shows "region_subset l a b = (\<forall>p < length (cells a). cells a ! p = l \<longrightarrow> cells b ! p = l)"
  unfolding region_subset_def using assms by (auto simp: set_zip)

lemma expanded_label_keeps:
  assumes wf: "wf_volume seg" and k: "0 < kx" "0 < ky" "0 < kz" and p: "p < length (cells seg)"
    and l: "l = 1 \<or> l = 2" and c: "cells seg ! p = l"
  shows "expanded_label seg (kx, ky, kz) p = l"
proof -
  have n: "voxels (shape seg) = length (cells seg)" using wf by (simp add: wf_volume_def)
  have "cells (binary_dilation (kx, ky, kz) (eq_label seg l)) ! p"
    using p c n k by (intro dilation_extensive) (simp_all add: eq_label_simps)
  then show ?thesis using l c by (auto simp: expanded_label_def Let_def)
qed

lemma expander_monotone_kernel:
  assumes wf: "wf_volume seg" and k: "0 < kx" "0 < ky" "0 < kz"
  shows "\<exists>r. expand_with_kernel seg (kx, ky, kz) = Inr r \<and> same_shape r seg
            \<and> region_subset 1 seg r \<and> region_subset 2 seg r
            \<and> overlap_rule seg (kx, ky, kz) r"
proof -
  obtain r where r: "expand_with_kernel seg (kx, ky, kz) = Inr r" "shape r = shape seg"
      "length (cells r) = length (cells seg)"
      "\<forall>p < length (cells seg). cells r ! p = expanded_label seg (kx, ky, kz) p"
    using expand_with_kernel_cells[OF wf] by blast
  have "region_subset l seg r" if "l = 1 \<or> l = 2" for l
    using r(3,4) expanded_label_keeps[OF wf k _ that] by (simp add: region_subset_nth)
  moreover have "overlap_rule seg (kx, ky, kz) r"
    unfolding overlap_rule_def using r(4) by (auto simp: expanded_label_def Let_def)
  ultimately show ?thesis using r by (simp add: same_shape_def)
qed

text \<open>
  Claim C3.  For every label volume, every voxel spacing with positive entries and every
  expansion distance of at least 0 mm, the Mask Expander returns a volume of the same shape
  in which every voxel labelled 1 in the input is labelled 1 and every voxel labelled 2 in
  the input is labelled 2.  The overlap rule takes a voxel away from a label's dilation only
  when the dilation of the other label reaches it too and the voxel did not hold the label.
\<close>

theorem expander_monotone:
  assumes "wf_volume seg" and "0 < sx" "0 < sy" "0 < sz" and "0 \<le> expansion_mm"
  shows "\<exists>k r. kernel_sizes (sx, sy, sz) expansion_mm = Inr k
            \<and> expand_segmentation seg (sx, sy, sz) expansion_mm = Inr r \<and> same_shape r seg
            \<and> region_subset 1 seg r \<and> region_subset 2 seg r \<and> overlap_rule seg k r"
proof -
  obtain kx ky kz where k: "kernel_sizes (sx, sy, sz) expansion_mm = Inr (kx, ky, kz)"
      "0 < kx" "0 < ky" "0 < kz"
    using kernel_sizes_positive[of sx sy sz expansion_mm] assms by auto
  obtain r where r: "expand_with_kernel seg (kx, ky, kz) = Inr r" "same_shape r seg"
      "region_subset 1 seg r" "region_subset 2 seg r" "overlap_rule seg (kx, ky, kz) r"
    using expander_monotone_kernel[OF assms(1) k(2-4)] by blast
  have "expand_segmentation seg (sx, sy, sz) expansion_mm = Inr r"
    using k(1) r(1) by (simp add: expand_segmentation_def bind_result_def)
  then show ?thesis using k(1) r(2-5) by blast
qed

theorem expander_monotone_witness:
  "wf_volume \<lparr>shape = (1, 1, 5), cells = [0, 0, 1, 0, 2 :: int]\<rparr> \<and> (0::rat) < 1 \<and> (0::rat) \<le> 3
   \<and> (\<exists>k r. kernel_sizes (1, 1, 1) 3 = Inr k
          \<and> expand_segmentation \<lparr>shape = (1, 1, 5), cells = [0, 0, 1, 0, 2 :: int]\<rparr> (1, 1, 1) 3 = Inr r
          \<and> same_shape r \<lparr>shape = (1, 1, 5), cells = [0, 0, 1, 0, 2 :: int]\<rparr>
          \<and> region_subset 1 \<lparr>shape = (1, 1, 5), cells = [0, 0, 1, 0, 2 :: int]\<rparr> r
          \<and> region_subset 2 \<lparr>shape = (1, 1, 5), cells = [0, 0, 1, 0, 2 :: int]\<rparr> r
          \<and> overlap_rule \<lparr>shape = (1, 1, 5), cells = [0, 0, 1, 0, 2 :: int]\<rparr> k r)"
  using expander_monotone [of "\<lparr>shape = (1, 1, 5), cells = [0, 0, 1, 0, 2 :: int]\<rparr>" 1 1 1 3]
  by (simp add: wf_volume_def voxels_def)

lemma expand_unit_identity:
  assumes wf: "wf_volume seg" and lv: "label_volume seg"
  shows "expand_with_kernel seg (1, 1, 1) = Inr seg"
proof -
  obtain r where r: "expand_with_kernel seg (1, 1, 1) = Inr r" "shape r = shape seg"
      "length (cells r) = length (cells seg)"
      "\<forall>p < length (cells seg). cells r ! p = expanded_label seg (1, 1, 1) p"
    using expand_with_kernel_cells[OF wf] by blast
  have wfl: "wf_volume (eq_label seg l)" for l
    using wf by (simp add: wf_volume_def eq_label_simps)
  have "cells r = cells seg"
  proof (rule nth_equalityI)
    show "length (cells r) = length (cells seg)" by (rule r(3))
  next
    fix p assume "p < length (cells r)"
    then have p: "p < length (cells seg)" using r(3) by simp
    then have "cells seg ! p \<in> set (cells seg)" by simp
    then have "cells seg ! p = 0 \<or> cells seg ! p = 1 \<or> cells seg ! p = 2"
      using lv by (simp add: label_volume_def)
    moreover have "expanded_label seg (1, 1, 1) p =
        (if cells seg ! p = 2 then 2 else if cells seg ! p = 1 then 1 else 0)"
      unfolding expanded_label_def dilation_unit[OF wfl] Let_def
      using p by (simp add: eq_label_simps)
    ultimately have "expanded_label seg (1, 1, 1) p = cells seg ! p"
      by auto
    then show "cells r ! p = cells seg ! p" using r(4) p by simp
  qed
  then have "r = seg" using r(2) by simp
  then show ?thesis using r(1) by simp
qed

text \<open>
  Claim C9, as amended.  With an expansion of 0 mm and positive voxel spacing the kernel
  size is 1 on each axis (the floor \<^verbatim>\<open>max(1, ks)\<close>), and the Mask Expander returns a
  volume identical to its input label volume: a structuring element of one voxel dilates
  nothing.
\<close>

theorem zero_expansion_identity:
  assumes "wf_volume seg" and "label_volume seg" and "0 < sx" "0 < sy" "0 < sz"
  shows "kernel_sizes (sx, sy, sz) 0 = Inr (1, 1, 1)
         \<and> expand_segmentation seg (sx, sy, sz) 0 = Inr seg"
  using kernel_sizes_zero[of sx sy sz] expand_unit_identity[OF assms(1,2)] assms(3-5)
  by (simp add: expand_segmentation_def bind_result_def)

theorem zero_expansion_identity_witness:
  "wf_volume \<lparr>shape = (1, 1, 3), cells = [0, 1, 2 :: int]\<rparr>
   \<and> label_volume \<lparr>shape = (1, 1, 3), cells = [0, 1, 2 :: int]\<rparr> \<and> (0::rat) < 1
   \<and> kernel_sizes (1, 1, 1) 0 = Inr (1, 1, 1)
   \<and> expand_segmentation \<lparr>shape = (1, 1, 3), cells = [0, 1, 2 :: int]\<rparr> (1, 1, 1) 0
       = Inr \<lparr>shape = (1, 1, 3), cells = [0, 1, 2 :: int]\<rparr>"
  using zero_expansion_identity [of "\<lparr>shape = (1, 1, 3), cells = [0, 1, 2 :: int]\<rparr>" 1 1 1]
  by (simp add: wf_volume_def voxels_def label_volume_def)

text \<open>
  The claim as stated (the output is dilated by one voxel and differs from the input) fails:
  a tibia voxel between two background voxels comes back unchanged.
\<close>

theorem zero_expansion_counterexample:
  "expand_segmentation \<lparr>shape = (1, 1, 3), cells = [0, 1, 0 :: int]\<rparr> (1, 1, 1) 0
     = Inr \<lparr>shape = (1, 1, 3), cells = [0, 1, 0 :: int]\<rparr>"
proof -
  have "wf_volume \<lparr>shape = (1, 1, 3), cells = [0, 1, 0 :: int]\<rparr>"
    by (simp add: wf_volume_def voxels_def)
  moreover have "label_volume \<lparr>shape = (1, 1, 3), cells = [0, 1, 0 :: int]\<rparr>"
    by (simp add: label_volume_def)
  ultimately have "expand_with_kernel \<lparr>shape = (1, 1, 3), cells = [0, 1, 0 :: int]\<rparr> (1, 1, 1)
      = Inr \<lparr>shape = (1, 1, 3), cells = [0, 1, 0 :: int]\<rparr>"
    by (rule expand_unit_identity)
  moreover have "kernel_sizes (1, 1, 1) 0 = Inr (1, 1, 1)"
    by (rule kernel_sizes_zero) simp_all
  ultimately show ?thesis
    by (simp add: expand_segmentation_def bind_result_def)
qed

section \<open>Mask randomisation\<close>

lemma length_scatter: "length (scatter ms vs) = length ms"
  by (induction ms vs rule: scatter.induct) simp_all

lemma scatter_subset: "list_all2 (\<lambda>k m. k \<longrightarrow> m) (scatter ms vs) ms"
  by (induction ms vs rule: scatter.induct) simp_all

lemma scatter_all_false:
  "\<forall>v \<in> set vs. \<not> v \<Longrightarrow> scatter ms vs = replicate (length ms) False"
  by (induction ms vs rule: scatter.induct) auto

lemma scatter_all_true:
  "\<forall>v \<in> set vs. v \<Longrightarrow> length (filter (\<lambda>b. b) ms) \<le> length vs \<Longrightarrow> scatter ms vs = ms"
  by (induction ms vs rule: scatter.induct) auto

lemma valid_rng_shift: "valid_rng g \<Longrightarrow> valid_rng (snd (random_sample n g))"
  by (simp add: valid_rng_def random_sample_def)

lemma random_sample_draws:
  "length (fst (random_sample n g)) = n"
  "valid_rng g \<Longrightarrow> \<forall>d \<in> set (fst (random_sample n g)). 0 \<le> d \<and> d < 1"
  by (auto simp: valid_rng_def random_sample_def)

lemma randomize_label_step:
  assumes so: "shape orig = shape expd" and lo: "length (cells orig) = length (cells expd)"
    and sr: "shape res = shape orig" and lr: "length (cells res) = length (cells orig)"
  shows "\<exists>res' g' K. randomize_label orig expd rv l (res, g) = Inr (res', g')
           \<and> shape res' = shape orig \<and> length (cells res') = length (cells orig)
           \<and> (valid_rng g \<longrightarrow> valid_rng g')
           \<and> (\<forall>p < length (cells orig).
                 cells res' ! p = (if cells orig ! p = l \<or> K p then l else cells res ! p))
           \<and> (\<forall>p < length (cells orig). K p \<longrightarrow> cells expd ! p = l \<and> cells orig ! p \<noteq> l)
           \<and> (valid_rng g \<and> rv \<le> 0 \<longrightarrow> (\<forall>p < length (cells orig). \<not> K p))
           \<and> (valid_rng g \<and> 1 \<le> rv \<longrightarrow>
                 (\<forall>p < length (cells orig). K p = (cells expd ! p = l \<and> cells orig ! p \<noteq> l)))"
proof -
  let ?n = "length (cells orig)"
  define region where "region = mask_and (eq_label expd l) (mask_not (eq_label orig l))"
  define nring where "nring = count_true region"
  define draws where "draws = fst (random_sample nring g)"
  define rm where "rm = map (\<lambda>d. d < rv) draws"
  define temp where "temp = region\<lparr>cells := scatter (cells region) rm\<rparr>"
  have lreg: "length (cells region) = ?n" "shape region = shape orig"
    by (simp_all add: region_def mask_and_simps mask_not_simps eq_label_simps lo so)
  have creg: "cells region ! p = (cells expd ! p = l \<and> cells orig ! p \<noteq> l)" if "p < ?n" for p
    using that by (simp add: region_def mask_and_simps mask_not_simps eq_label_simps lo)
  have ltemp: "length (cells temp) = ?n" "shape temp = shape orig"
    by (simp_all add: temp_def length_scatter lreg)
  have sub: "cells temp ! p \<longrightarrow> cells region ! p" if "p < ?n" for p
    using list_all2_nthD[OF scatter_subset[of "cells region" rm], of p] that
    by (simp add: temp_def length_scatter lreg)
  have ldraws: "length draws = nring" by (simp add: draws_def random_sample_draws)
  have none: "\<not> cells temp ! p" if "valid_rng g" "rv \<le> 0" "p < ?n" for p
  proof -
    have "\<forall>v \<in> set rm. \<not> v"
      using random_sample_draws(2)[OF that(1), of nring] that(2) by (auto simp: rm_def draws_def)
    then have "cells temp = replicate ?n False"
      by (simp add: temp_def scatter_all_false lreg)
    then show ?thesis using that(3) by simp
  qed
  have all: "cells temp ! p = cells region ! p" if "valid_rng g" "1 \<le> rv" "p < ?n" for p
  proof -
    have "\<forall>v \<in> set rm. v"
      using random_sample_draws(2)[OF that(1), of nring] that(2) by (auto simp: rm_def draws_def)
    moreover have "length (filter (\<lambda>b. b) (cells region)) \<le> length rm"
      by (simp add: rm_def ldraws nring_def count_true_def)
    ultimately have "cells temp = cells region"
      by (simp add: temp_def scatter_all_true)
    then show ?thesis by simp
  qed
  show ?thesis
  proof (cases "0 < nring")
    case True
    obtain res' where res': "assign_mask res (mask_or (eq_label orig l) temp) l = Inr res'"
        "shape res' = shape res" "length (cells res') = length (cells res)"
        "\<forall>p < length (cells res). cells res' ! p =
            (if cells (mask_or (eq_label orig l) temp) ! p then l else cells res ! p)"
      using assign_mask_Inr[of "mask_or (eq_label orig l) temp" res l]
      by (auto simp: mask_or_simps eq_label_simps ltemp sr lr)
    have run: "randomize_label orig expd rv l (res, g) = Inr (res', snd (random_sample nring g))"
      using True res'(1)
      by (simp add: randomize_label_def Let_def bind_result_def region_def[symmetric]
          nring_def[symmetric] split_beta temp_def rm_def draws_def)
    have cells': "\<forall>p < ?n. cells res' ! p = (if cells orig ! p = l \<or> cells temp ! p then l else cells res ! p)"
      using res'(4) by (simp add: mask_or_simps eq_label_simps ltemp lr)
    have "shape res' = shape orig" "length (cells res') = ?n"
      using res'(2,3) sr lr by simp_all
    moreover have "valid_rng g \<longrightarrow> valid_rng (snd (random_sample nring g))"
      by (simp add: valid_rng_shift)
    moreover have "\<forall>p < ?n. cells temp ! p \<longrightarrow> cells expd ! p = l \<and> cells orig ! p \<noteq> l"
      using sub creg by blast
    moreover have "valid_rng g \<and> rv \<le> 0 \<longrightarrow> (\<forall>p < ?n. \<not> cells temp ! p)"
      using none by blast
    moreover have "valid_rng g \<and> 1 \<le> rv \<longrightarrow>
        (\<forall>p < ?n. cells temp ! p = (cells expd ! p = l \<and> cells orig ! p \<noteq> l))"
      using all creg by blast
    ultimately have "shape res' = shape orig" "length (cells res') = ?n"
      "valid_rng g \<longrightarrow> valid_rng (snd (random_sample nring g))"
      "\<forall>p < ?n. cells temp ! p \<longrightarrow> cells expd ! p = l \<and> cells orig ! p \<noteq> l"
      "valid_rng g \<and> rv \<le> 0 \<longrightarrow> (\<forall>p < ?n. \<not> cells temp ! p)"
      "valid_rng g \<and> 1 \<le> rv \<longrightarrow>
        (\<forall>p < ?n. cells temp ! p = (cells expd ! p = l \<and> cells orig ! p \<noteq> l))"
      by blast+
    note facts = this run cells'
    show ?thesis
      by (intro exI conjI) (rule facts)+
  next
    case False
    obtain res' where res': "assign_mask res (eq_label orig l) l = Inr res'"
        "shape res' = shape res" "length (cells res') = length (cells res)"
        "\<forall>p < length (cells res). cells res' ! p =
            (if cells (eq_label orig l) ! p then l else cells res ! p)"
      using assign_mask_Inr[of "eq_label orig l" res l]
      by (auto simp: eq_label_simps sr lr)
    have run: "randomize_label orig expd rv l (res, g) = Inr (res', g)"
      using False res'(1)
      by (simp add: randomize_label_def Let_def bind_result_def region_def[symmetric]
          nring_def[symmetric])
    have empty: "\<not> cells region ! p" if "p < ?n" for p
    proof
      assume c: "cells region ! p"
      have "cells region ! p \<in> set (cells region)"
        using that lreg(1) by (simp only: nth_mem)
      then have "cells region ! p \<in> set (filter (\<lambda>b. b) (cells region))"
        using c by simp
      then have "filter (\<lambda>b. b) (cells region) \<noteq> []"
        by (metis empty_iff empty_set)
      then show False using False by (simp add: nring_def count_true_def)
    qed
    have cells': "\<forall>p < ?n. cells res' ! p = (if cells orig ! p = l \<or> False then l else cells res ! p)"
      using res'(4) by (simp add: eq_label_simps lr)
    have "shape res' = shape orig" "length (cells res') = ?n"
      using res'(2,3) sr lr by simp_all
    moreover have "\<forall>p < ?n. (\<lambda>p. False) p \<longrightarrow> cells expd ! p = l \<and> cells orig ! p \<noteq> l"
      by simp
    moreover have "valid_rng g \<and> rv \<le> 0 \<longrightarrow> (\<forall>p < ?n. \<not> (\<lambda>p. False) p)"
      by simp
    moreover have "valid_rng g \<and> 1 \<le> rv \<longrightarrow>
        (\<forall>p < ?n. (\<lambda>p. False) p = (cells expd ! p = l \<and> cells orig ! p \<noteq> l))"
      using empty creg by simp
    moreover have "\<forall>p < ?n. cells res' ! p = (if cells orig ! p = l \<or> (\<lambda>p. False) p then l else cells res ! p)"
      using cells' by simp
    moreover have "valid_rng g \<longrightarrow> valid_rng g" by simp
    note facts = calculation this run
    show ?thesis
      by (intro exI conjI) (rule facts)+
  qed
qed

lemma generate_random_mask_cells:
  assumes ss: "same_shape orig expd"
  shows "\<exists>r g' K1 K2. generate_random_mask orig expd rv g = Inr (r, g')
           \<and> shape r = shape orig \<and> length (cells r) = length (cells orig)
           \<and> (\<forall>p < length (cells orig).
                 cells r ! p = (if cells orig ! p = 2 \<or> K2 p then 2
                                else if cells orig ! p = 1 \<or> K1 p then 1 else 0))
           \<and> (\<forall>p < length (cells orig). K1 p \<longrightarrow> cells expd ! p = 1 \<and> cells orig ! p \<noteq> 1)
           \<and> (\<forall>p < length (cells orig). K2 p \<longrightarrow> cells expd ! p = 2 \<and> cells orig ! p \<noteq> 2)
           \<and> (valid_rng g \<and> rv \<le> 0 \<longrightarrow> (\<forall>p < length (cells orig). \<not> K1 p \<and> \<not> K2 p))
           \<and> (valid_rng g \<and> 1 \<le> rv \<longrightarrow>
                 (\<forall>p < length (cells orig).
                     K1 p = (cells expd ! p = 1 \<and> cells orig ! p \<noteq> 1)
                   \<and> K2 p = (cells expd ! p = 2 \<and> cells orig ! p \<noteq> 2)))"
proof -
  let ?n = "length (cells orig)"
  define rv' where "rv' = max 0 (min 1 rv)"
  have so: "shape orig = shape expd" and lo: "?n = length (cells expd)"
    using ss by (simp_all add: same_shape_def)
  have lo0: "rv \<le> 0 \<Longrightarrow> rv' \<le> 0" and hi1: "1 \<le> rv \<Longrightarrow> 1 \<le> rv'"
    by (simp_all add: rv'_def)
  obtain r1 g1 K1 where s1:
      "randomize_label orig expd rv' 1 (zeros_like orig, g) = Inr (r1, g1)"
      "shape r1 = shape orig" "length (cells r1) = ?n"
      "valid_rng g \<longrightarrow> valid_rng g1"
      "\<forall>p < ?n. cells r1 ! p = (if cells orig ! p = 1 \<or> K1 p then 1 else cells (zeros_like orig) ! p)"
      "\<forall>p < ?n. K1 p \<longrightarrow> cells expd ! p = 1 \<and> cells orig ! p \<noteq> 1"
      "valid_rng g \<and> rv' \<le> 0 \<longrightarrow> (\<forall>p < ?n. \<not> K1 p)"
      "valid_rng g \<and> 1 \<le> rv' \<longrightarrow> (\<forall>p < ?n. K1 p = (cells expd ! p = 1 \<and> cells orig ! p \<noteq> 1))"
    using randomize_label_step[OF so lo, of "zeros_like orig" rv' 1 g]
    by (auto simp: zeros_like_simps)
  obtain r2 g2 K2 where s2:
      "randomize_label orig expd rv' 2 (r1, g1) = Inr (r2, g2)"
      "shape r2 = shape orig" "length (cells r2) = ?n"
      "\<forall>p < ?n. cells r2 ! p = (if cells orig ! p = 2 \<or> K2 p then 2 else cells r1 ! p)"
      "\<forall>p < ?n. K2 p \<longrightarrow> cells expd ! p = 2 \<and> cells orig ! p \<noteq> 2"
      "valid_rng g1 \<and> rv' \<le> 0 \<longrightarrow> (\<forall>p < ?n. \<not> K2 p)"
      "valid_rng g1 \<and> 1 \<le> rv' \<longrightarrow> (\<forall>p < ?n. K2 p = (cells expd ! p = 2 \<and> cells orig ! p \<noteq> 2))"
    using randomize_label_step[OF so lo s1(2,3), of rv' 2 g1] by blast
  have run: "generate_random_mask orig expd rv g = Inr (r2, g2)"
    using so lo s1(1) s2(1)
    by (simp add: generate_random_mask_def Let_def bind_result_def rv'_def)
  have c: "\<forall>p < ?n. cells r2 ! p = (if cells orig ! p = 2 \<or> K2 p then 2
                                else if cells orig ! p = 1 \<or> K1 p then 1 else 0)"
    using s1(5) s2(4) by (simp add: zeros_like_simps)
  have z: "valid_rng g \<and> rv \<le> 0 \<longrightarrow> (\<forall>p < ?n. \<not> K1 p \<and> \<not> K2 p)"
    using s1(4,7) s2(6) lo0 by blast
  have o: "valid_rng g \<and> 1 \<le> rv \<longrightarrow>
                 (\<forall>p < ?n.
                     K1 p = (cells expd ! p = 1 \<and> cells orig ! p \<noteq> 1)
                   \<and> K2 p = (cells expd ! p = 2 \<and> cells orig ! p \<noteq> 2))"
    using s1(4,8) s2(7) hi1 by blast
  note facts = run s2(2,3) c s1(6) s2(5) z o
  show ?thesis
    by (intro exI conjI) (rule facts)+
qed

lemma randomizer_regions:
  assumes ss: "same_shape orig expd"
    and s1: "region_subset 1 orig expd" and s2: "region_subset 2 orig expd"
  shows "\<exists>r g'. generate_random_mask orig expd rv g = Inr (r, g') \<and> same_shape r orig
           \<and> region_subset 1 orig r \<and> region_subset 2 orig r
           \<and> region_subset 1 r expd \<and> region_subset 2 r expd"
proof -
  let ?n = "length (cells orig)"
  have lo: "?n = length (cells expd)" using ss by (simp add: same_shape_def)
  obtain r g' K1 K2 where r: "generate_random_mask orig expd rv g = Inr (r, g')"
      "shape r = shape orig" "length (cells r) = ?n"
      "\<forall>p < ?n. cells r ! p = (if cells orig ! p = 2 \<or> K2 p then 2
                                else if cells orig ! p = 1 \<or> K1 p then 1 else 0)"
      "\<forall>p < ?n. K1 p \<longrightarrow> cells expd ! p = 1 \<and> cells orig ! p \<noteq> 1"
      "\<forall>p < ?n. K2 p \<longrightarrow> cells expd ! p = 2 \<and> cells orig ! p \<noteq> 2"
    using generate_random_mask_cells[OF ss, of rv g] by blast
  have e1: "\<forall>p < ?n. cells orig ! p = 1 \<longrightarrow> cells expd ! p = 1"
    using s1 lo by (simp add: region_subset_nth)
  have e2: "\<forall>p < ?n. cells orig ! p = 2 \<longrightarrow> cells expd ! p = 2"
    using s2 lo by (simp add: region_subset_nth)
  have a: "cells orig ! p = 1 \<longrightarrow> cells r ! p = 1" if "p < ?n" for p
    using that r(4,6) e1 by auto
  have b: "cells orig ! p = 2 \<longrightarrow> cells r ! p = 2" if "p < ?n" for p
    using that r(4) by auto
  have c: "cells r ! p = 1 \<longrightarrow> cells expd ! p = 1" if "p < ?n" for p
    using that r(4,5) e1 by (auto split: if_splits)
  have d: "cells r ! p = 2 \<longrightarrow> cells expd ! p = 2" if "p < ?n" for p
    using that r(4,6) e2 by (auto split: if_splits)
  have "region_subset 1 orig r" "region_subset 2 orig r"
    using a b r(3) by (simp_all add: region_subset_nth)
  moreover have "region_subset 1 r expd" "region_subset 2 r expd"
    using c d r(3) lo by (simp_all add: region_subset_nth)
  moreover have "same_shape r orig" using r(2,3) by (simp add: same_shape_def)
  ultimately show ?thesis using r(1) by blast
qed

text \<open>
  Claim C2, as amended.  For every pair of label volumes of one shape in which the expanded
  volume keeps every label of the original (as the Mask Expander's output does), every
  random value and every state of the generator, the Mask Randomizer returns a volume with,
  per label, original region within randomized region within expanded region.
\<close>

theorem randomizer_between:
  assumes "same_shape orig expd"
    and "region_subset 1 orig expd" and "region_subset 2 orig expd"
  shows "\<exists>r. volume_of (generate_random_mask orig expd rv g) = Inr r \<and> same_shape r orig
           \<and> region_subset 1 orig r \<and> region_subset 2 orig r
           \<and> region_subset 1 r expd \<and> region_subset 2 r expd"
proof -
  obtain r g' where "generate_random_mask orig expd rv g = Inr (r, g')" "same_shape r orig"
      "region_subset 1 orig r" "region_subset 2 orig r"
      "region_subset 1 r expd" "region_subset 2 r expd"
    using randomizer_regions[OF assms, of rv g] by blast
  then show ?thesis by (auto simp: volume_of_def)
qed

lemma volume_eqI:
  assumes "shape a = shape b" and "length (cells a) = length (cells b)"
    and "\<forall>p < length (cells a). cells a ! p = cells b ! p"
  shows "(a :: 'a volume) = b"
proof -
  have "cells a = cells b" using assms(2,3) by (simp add: nth_equalityI)
  then show ?thesis using assms(1) by simp
qed

lemma label_volume_nth:
  "label_volume v = (\<forall>p < length (cells v). cells v ! p = 0 \<or> cells v ! p = 1 \<or> cells v ! p = 2)"
  unfolding label_volume_def all_set_conv_all_nth ..

lemma randomizer_zero:
  assumes ss: "same_shape orig expd" and g: "valid_rng g" and lv: "label_volume orig"
  shows "volume_of (generate_random_mask orig expd 0 g) = Inr orig"
proof -
  let ?n = "length (cells orig)"
  obtain r g' K1 K2 where r: "generate_random_mask orig expd 0 g = Inr (r, g')"
      "shape r = shape orig" "length (cells r) = ?n"
      "\<forall>p < ?n. cells r ! p = (if cells orig ! p = 2 \<or> K2 p then 2
                                else if cells orig ! p = 1 \<or> K1 p then 1 else 0)"
      "valid_rng g \<and> (0::rat) \<le> 0 \<longrightarrow> (\<forall>p < ?n. \<not> K1 p \<and> \<not> K2 p)"
    using generate_random_mask_cells[OF ss, of 0 g] by blast
  have k: "\<forall>p < ?n. \<not> K1 p \<and> \<not> K2 p" using r(5) g by simp
  have l: "\<forall>p < ?n. cells orig ! p = 0 \<or> cells orig ! p = 1 \<or> cells orig ! p = 2"
    using lv by (simp add: label_volume_nth)
  have "\<forall>p < length (cells r). cells r ! p = cells orig ! p"
    using r(3,4) k l by auto
  then have "r = orig" using r(2,3) by (intro volume_eqI) simp_all
  then show ?thesis using r(1) by (simp add: volume_of_def)
qed

lemma randomizer_one:
  assumes ss: "same_shape orig expd" and g: "valid_rng g" and lv: "label_volume expd"
    and s1: "region_subset 1 orig expd" and s2: "region_subset 2 orig expd"
  shows "volume_of (generate_random_mask orig expd 1 g) = Inr expd"
proof -
  let ?n = "length (cells orig)"
  have lo: "?n = length (cells expd)" and so: "shape orig = shape expd"
    using ss by (simp_all add: same_shape_def)
  obtain r g' K1 K2 where r: "generate_random_mask orig expd 1 g = Inr (r, g')"
      "shape r = shape orig" "length (cells r) = ?n"
      "\<forall>p < ?n. cells r ! p = (if cells orig ! p = 2 \<or> K2 p then 2
                                else if cells orig ! p = 1 \<or> K1 p then 1 else 0)"
      "valid_rng g \<and> (1::rat) \<le> 1 \<longrightarrow>
                 (\<forall>p < ?n.
                     K1 p = (cells expd ! p = 1 \<and> cells orig ! p \<noteq> 1)
                   \<and> K2 p = (cells expd ! p = 2 \<and> cells orig ! p \<noteq> 2))"
    using generate_random_mask_cells[OF ss, of 1 g] by blast
  have k: "\<forall>p < ?n. K1 p = (cells expd ! p = 1 \<and> cells orig ! p \<noteq> 1)
                   \<and> K2 p = (cells expd ! p = 2 \<and> cells orig ! p \<noteq> 2)"
    using r(5) g by simp
  have l: "\<forall>p < ?n. cells expd ! p = 0 \<or> cells expd ! p = 1 \<or> cells expd ! p = 2"
    using lv lo by (simp add: label_volume_nth)
  have e1: "\<forall>p < ?n. cells orig ! p = 1 \<longrightarrow> cells expd ! p = 1"
    using s1 lo by (simp add: region_subset_nth)
  have e2: "\<forall>p < ?n. cells orig ! p = 2 \<longrightarrow> cells expd ! p = 2"
    using s2 lo by (simp add: region_subset_nth)
  have "cells r ! p = cells expd ! p" if "p < ?n" for p
  proof -
    from that l have "cells expd ! p = 0 \<or> cells expd ! p = 1 \<or> cells expd ! p = 2" by blast
    then show ?thesis using that r(4) k e1 e2 by (elim disjE) auto
  qed
  then have "r = expd" using r(2,3) lo so by (intro volume_eqI) simp_all
  then show ?thesis using r(1) by (simp add: volume_of_def)
qed

text \<open>
  Claim C4, as amended.  For label volumes of one shape and draws from the half-open unit
  interval, random value 0 reproduces the original volume exactly; random value 1 reproduces
  the expanded volume exactly when the expanded volume keeps every label of the original.
\<close>

theorem randomizer_extremes:
  assumes "same_shape orig expd" and "valid_rng g" and "label_volume orig"
  shows "volume_of (generate_random_mask orig expd 0 g) = Inr orig
         \<and> (label_volume expd \<and> region_subset 1 orig expd \<and> region_subset 2 orig expd
              \<longrightarrow> volume_of (generate_random_mask orig expd 1 g) = Inr expd)"
  using randomizer_zero[OF assms] randomizer_one[OF assms(1,2)] by blast

theorem randomizer_between_witness:
  "same_shape \<lparr>shape = (1, 1, 4), cells = [0, 1, 0, 2 :: int]\<rparr> \<lparr>shape = (1, 1, 4), cells = [1, 1, 2, 2 :: int]\<rparr>
   \<and> region_subset 1 \<lparr>shape = (1, 1, 4), cells = [0, 1, 0, 2]\<rparr> \<lparr>shape = (1, 1, 4), cells = [1, 1, 2, 2]\<rparr>
   \<and> region_subset 2 \<lparr>shape = (1, 1, 4), cells = [0, 1, 0, 2]\<rparr> \<lparr>shape = (1, 1, 4), cells = [1, 1, 2, 2]\<rparr>
   \<and> (\<exists>r. volume_of (generate_random_mask \<lparr>shape = (1, 1, 4), cells = [0, 1, 0, 2]\<rparr>
                \<lparr>shape = (1, 1, 4), cells = [1, 1, 2, 2]\<rparr> (1 / 2) (\<lambda>i. 1 / 4)) = Inr r
          \<and> same_shape r \<lparr>shape = (1, 1, 4), cells = [0, 1, 0, 2 :: int]\<rparr>
          \<and> region_subset 1 \<lparr>shape = (1, 1, 4), cells = [0, 1, 0, 2]\<rparr> r
          \<and> region_subset 2 \<lparr>shape = (1, 1, 4), cells = [0, 1, 0, 2]\<rparr> r
          \<and> region_subset 1 r \<lparr>shape = (1, 1, 4), cells = [1, 1, 2, 2]\<rparr>
          \<and> region_subset 2 r \<lparr>shape = (1, 1, 4), cells = [1, 1, 2, 2]\<rparr>)"
  using randomizer_between [of "\<lparr>shape = (1, 1, 4), cells = [0, 1, 0, 2]\<rparr>"
      "\<lparr>shape = (1, 1, 4), cells = [1, 1, 2, 2]\<rparr>" "1 / 2" "\<lambda>i. 1 / 4"]
  by (simp add: same_shape_def region_subset_def)

text \<open>
  The claim as stated, for every pair of volumes, fails: where the second volume says femur on
  a tibia voxel of the first and the draw succeeds, the tibia voxel is relabelled.
\<close>

theorem randomizer_between_counterexample:
  "volume_of (generate_random_mask \<lparr>shape = (1, 1, 1), cells = [1 :: int]\<rparr>
      \<lparr>shape = (1, 1, 1), cells = [2]\<rparr> (1 / 2) (\<lambda>i. 0))
     = Inr \<lparr>shape = (1, 1, 1), cells = [2]\<rparr>
   \<and> \<not> region_subset 1 \<lparr>shape = (1, 1, 1), cells = [1]\<rparr> \<lparr>shape = (1, 1, 1), cells = [2]\<rparr>"
  by (simp add: volume_of_def generate_random_mask_def randomize_label_def zeros_like_def
      eq_label_def mask_and_def mask_or_def mask_not_def count_true_def random_sample_def
      assign_mask_def bind_result_def region_subset_def Let_def)

theorem randomizer_extremes_witness:
  "same_shape \<lparr>shape = (1, 1, 4), cells = [0, 1, 0, 2 :: int]\<rparr> \<lparr>shape = (1, 1, 4), cells = [1, 1, 2, 2 :: int]\<rparr>
   \<and> valid_rng (\<lambda>i. 1 / 4)
   \<and> label_volume \<lparr>shape = (1, 1, 4), cells = [0, 1, 0, 2]\<rparr>
   \<and> label_volume \<lparr>shape = (1, 1, 4), cells = [1, 1, 2, 2]\<rparr>
   \<and> region_subset 1 \<lparr>shape = (1, 1, 4), cells = [0, 1, 0, 2]\<rparr> \<lparr>shape = (1, 1, 4), cells = [1, 1, 2, 2]\<rparr>
   \<and> region_subset 2 \<lparr>shape = (1, 1, 4), cells = [0, 1, 0, 2]\<rparr> \<lparr>shape = (1, 1, 4), cells = [1, 1, 2, 2]\<rparr>
   \<and> volume_of (generate_random_mask \<lparr>shape = (1, 1, 4), cells = [0, 1, 0, 2]\<rparr>
          \<lparr>shape = (1, 1, 4), cells = [1, 1, 2, 2]\<rparr> 0 (\<lambda>i. 1 / 4))
        = Inr \<lparr>shape = (1, 1, 4), cells = [0, 1, 0, 2]\<rparr>
   \<and> volume_of (generate_random_mask \<lparr>shape = (1, 1, 4), cells = [0, 1, 0, 2]\<rparr>
          \<lparr>shape = (1, 1, 4), cells = [1, 1, 2, 2]\<rparr> 1 (\<lambda>i. 1 / 4))
        = Inr \<lparr>shape = (1, 1, 4), cells = [1, 1, 2, 2]\<rparr>"
  using randomizer_extremes [of "\<lparr>shape = (1, 1, 4), cells = [0, 1, 0, 2]\<rparr>"
      "\<lparr>shape = (1, 1, 4), cells = [1, 1, 2, 2]\<rparr>" "\<lambda>i. 1 / 4"]
  by (simp add: same_shape_def region_subset_def label_volume_def valid_rng_def)

text \<open>
  The claim as stated, for every pair of volumes, fails at random value 1: a tibia voxel of
  the original that the second volume calls background stays tibia, so the result is not the
  second volume.
\<close>

theorem randomizer_extremes_counterexample:
  "volume_of (generate_random_mask \<lparr>shape = (1, 1, 1), cells = [1 :: int]\<rparr>
      \<lparr>shape = (1, 1, 1), cells = [0]\<rparr> 1 (\<lambda>i. 0))
     = Inr \<lparr>shape = (1, 1, 1), cells = [1]\<rparr>"
  by (simp add: volume_of_def generate_random_mask_def randomize_label_def zeros_like_def
      eq_label_def mask_and_def mask_or_def mask_not_def count_true_def random_sample_def
      assign_mask_def bind_result_def Let_def)

section \<open>Labels of the stage outputs\<close>

lemma assign_mask_values:
  assumes "assign_mask r m c = Inr r'" and "x \<in> set (cells r')"
  shows "x = c \<or> x \<in> set (cells r)"
proof -
  from assms(1) have "cells r' = map2 (\<lambda>b x. if b then c else x) (cells m) (cells r)"
    by (auto simp: assign_mask_def split: if_splits)
  with assms(2) obtain b y where "(b, y) \<in> set (zip (cells m) (cells r))" "x = (if b then c else y)"
    by auto
  then show ?thesis by (auto dest: set_zip_rightD)
qed

lemma paint_labels_label_volume:
  assumes "paint_labels v t f = Inr r"
  shows "label_volume r"
proof -
  from assms obtain r1 where r1: "assign_mask (zeros_like v) t 1 = Inr r1"
      and r: "assign_mask r1 f 2 = Inr r"
    by (auto simp: paint_labels_def bind_result_def split: sum.splits)
  have "x = 0 \<or> x = 1 \<or> x = 2" if "x \<in> set (cells r)" for x
  proof -
    from assign_mask_values[OF r that] have "x = 2 \<or> x \<in> set (cells r1)" .
    moreover have "y = 1 \<or> y = 0" if "y \<in> set (cells r1)" for y
      using assign_mask_values[OF r1 that] by (auto simp: zeros_like_def)
    ultimately show ?thesis by auto
  qed
  then show ?thesis by (simp add: label_volume_def)
qed

lemma postprocessing_label_volume:
  "apply_3d_postprocessing lib seg = Inr r \<Longrightarrow> label_volume r"
  by (auto simp: apply_3d_postprocessing_def Let_def intro: paint_labels_label_volume)

lemma fallback_label_volume:
  "fallback_segmentation lib data start_slice end_slice = Inr r \<Longrightarrow> label_volume r"
  by (auto simp: fallback_segmentation_def Let_def bind_result_def
      split: sum.splits intro: paint_labels_label_volume)

lemma expander_label_volume:
  "expand_segmentation seg voxel_sizes expansion_mm = Inr r \<Longrightarrow> label_volume r"
  by (auto simp: expand_segmentation_def expand_with_kernel_def Let_def bind_result_def
      split: sum.splits intro: paint_labels_label_volume)

lemma randomizer_label_volume:
  assumes "generate_random_mask orig expd rv g = Inr (r, g')"
  shows "label_volume r"
proof -
  have ss: "same_shape orig expd"
    using assms by (auto simp: generate_random_mask_def same_shape_def split: if_splits)
  obtain r0 g0 K1 K2 where r: "generate_random_mask orig expd rv g = Inr (r0, g0)"
      "length (cells r0) = length (cells orig)"
      "\<forall>p < length (cells orig). cells r0 ! p = (if cells orig ! p = 2 \<or> K2 p then 2
                                else if cells orig ! p = 1 \<or> K1 p then 1 else 0)"
    using generate_random_mask_cells[OF ss, of rv g] by blast
  have "r0 = r" using r(1) assms by simp
  then show ?thesis using r(2,3) by (auto simp: label_volume_nth)
qed

lemma labels_exclusive: "count_true (mask_and (eq_label v 1) (eq_label v 2)) = 0"
proof -
  have "filter (\<lambda>b. b) (map2 (\<lambda>p q. p \<and> q) (map (\<lambda>x. x = 1) xs) (map (\<lambda>x. x = 2) xs)) = []"
    for xs :: "int list"
    by (induction xs) simp_all
  then show ?thesis by (simp add: count_true_def mask_and_def eq_label_def)
qed

lemma well_labelledI: "label_volume v \<Longrightarrow> well_labelled v"
  by (simp add: well_labelled_def labels_exclusive)

text \<open>
  Claim C1.  Every label volume returned by the 3-D Postprocessor, the Fallback Segmenter,
  the Mask Expander or the Mask Randomizer gives each voxel one label from 0, 1, 2, and its
  tibia mask and femur mask share no voxel.  This holds for every input and for every
  behaviour of the library operators.
\<close>

theorem stage_outputs_well_labelled:
  "(apply_3d_postprocessing lib seg = Inr r1 \<longrightarrow> well_labelled r1)
   \<and> (fallback_segmentation lib data start_slice end_slice = Inr r2 \<longrightarrow> well_labelled r2)
   \<and> (expand_segmentation seg' voxel_sizes expansion_mm = Inr r3 \<longrightarrow> well_labelled r3)
   \<and> (volume_of (generate_random_mask orig expd rv g) = Inr r4 \<longrightarrow> well_labelled r4)"
proof -
  have "well_labelled r4" if "volume_of (generate_random_mask orig expd rv g) = Inr r4"
  proof -
    from that obtain g' where "generate_random_mask orig expd rv g = Inr (r4, g')"
      by (cases "generate_random_mask orig expd rv g") (auto simp: volume_of_def)
    then show ?thesis by (intro well_labelledI randomizer_label_volume)
  qed
  then show ?thesis
    using postprocessing_label_volume fallback_label_volume expander_label_volume
    by (blast intro: well_labelledI)
qed

theorem stage_outputs_well_labelled_witness:
  "apply_3d_postprocessing identity_library \<lparr>shape = (1, 1, 3), cells = [1, 2, 7]\<rparr>
      = Inr \<lparr>shape = (1, 1, 3), cells = [1, 2, 0]\<rparr>
   \<and> well_labelled \<lparr>shape = (1, 1, 3), cells = [1, 2, 0]\<rparr>
   \<and> fallback_segmentation identity_library \<lparr>shape = (1, 1, 2), cells = [100, 300]\<rparr> 0 1
      = Inr \<lparr>shape = (1, 1, 2), cells = [0, 1]\<rparr>
   \<and> well_labelled \<lparr>shape = (1, 1, 2), cells = [0, 1]\<rparr>
   \<and> expand_segmentation \<lparr>shape = (1, 1, 3), cells = [0, 1, 0]\<rparr> (1, 1, 1) 0
      = Inr \<lparr>shape = (1, 1, 3), cells = [0, 1, 0]\<rparr>
   \<and> well_labelled \<lparr>shape = (1, 1, 3), cells = [0, 1, 0]\<rparr>
   \<and> volume_of (generate_random_mask \<lparr>shape = (1, 1, 1), cells = [1]\<rparr>
         \<lparr>shape = (1, 1, 1), cells = [0]\<rparr> 1 (\<lambda>i. 0))
      = Inr \<lparr>shape = (1, 1, 1), cells = [1]\<rparr>
   \<and> well_labelled \<lparr>shape = (1, 1, 1), cells = [1]\<rparr>"
proof -
  have a: "apply_3d_postprocessing identity_library \<lparr>shape = (1, 1, 3), cells = [1, 2, 7]\<rparr>
      = Inr \<lparr>shape = (1, 1, 3), cells = [1, 2, 0]\<rparr>"
    by (simp add: identity_library_def apply_3d_postprocessing_def paint_labels_def
        assign_mask_def zeros_like_def eq_label_def bind_result_def)
  have b: "fallback_segmentation identity_library \<lparr>shape = (1, 1, 2), cells = [100, 300]\<rparr> 0 1
      = Inr \<lparr>shape = (1, 1, 2), cells = [0, 1]\<rparr>"
    by code_simp
  have c: "expand_segmentation \<lparr>shape = (1, 1, 3), cells = [0, 1, 0]\<rparr> (1, 1, 1) 0
      = Inr \<lparr>shape = (1, 1, 3), cells = [0, 1, 0]\<rparr>"
    by code_simp
  have d: "volume_of (generate_random_mask \<lparr>shape = (1, 1, 1), cells = [1]\<rparr>
         \<lparr>shape = (1, 1, 1), cells = [0]\<rparr> 1 (\<lambda>i. 0))
      = Inr \<lparr>shape = (1, 1, 1), cells = [1]\<rparr>"
    by code_simp
  show ?thesis
    using a b c d
      stage_outputs_well_labelled [of identity_library "\<lparr>shape = (1, 1, 3), cells = [1, 2, 7]\<rparr>"
        "\<lparr>shape = (1, 1, 3), cells = [1, 2, 0]\<rparr>" "\<lparr>shape = (1, 1, 2), cells = [100, 300]\<rparr>" 0 1
        "\<lparr>shape = (1, 1, 2), cells = [0, 1]\<rparr>" "\<lparr>shape = (1, 1, 3), cells = [0, 1, 0]\<rparr>"
        "(1, 1, 1)" 0 "\<lparr>shape = (1, 1, 3), cells = [0, 1, 0]\<rparr>"
        "\<lparr>shape = (1, 1, 1), cells = [1]\<rparr>" "\<lparr>shape = (1, 1, 1), cells = [0]\<rparr>" 1 "\<lambda>i. 0"
        "\<lparr>shape = (1, 1, 1), cells = [1]\<rparr>"]
    by blast
qed

section \<open>Joint locator\<close>

lemma argmin_least:
  assumes "xs \<noteq> []"
  shows "argmin xs < length xs \<and> xs ! argmin xs = Min (set xs)"
proof -
  have "Min (set xs) \<in> set xs" using assms by (intro Min_in) simp_all
  then have "takeWhile (\<lambda>x. x \<noteq> Min (set xs)) xs \<noteq> xs"
    by (simp only: takeWhile_eq_all_conv) blast
  then have "length (takeWhile (\<lambda>x. x \<noteq> Min (set xs)) xs) \<noteq> length xs"
    by (metis takeWhile_eq_take take_all order_refl)
  then have l: "length (takeWhile (\<lambda>x. x \<noteq> Min (set xs)) xs) < length xs"
    using length_takeWhile_le[of "\<lambda>x. x \<noteq> Min (set xs)" xs] by linarith
  from nth_length_takeWhile[OF l] l show ?thesis by (simp add: argmin_def)
qed

lemma local_minima_bounds:
  "j \<in> set (local_minima mp) \<Longrightarrow> 2 \<le> j \<and> j + 2 < length mp"
  by (auto simp: local_minima_def)

lemma find_joint_position_unfold:
  "find_joint_position lib bone_mask height =
     (let mp = middle_profile lib bone_mask height
      in if 5 < length mp \<and> local_minima mp \<noteq> []
         then height div 3 + local_minima mp ! argmin (map (\<lambda>j. mp ! j) (local_minima mp))
         else height div 2)"
  by (simp add: find_joint_position_def middle_profile_def Let_def)

lemma length_middle_profile:
  "length (middle_profile lib bone_mask height) \<le> 2 * height div 3 - height div 3"
  by (simp add: middle_profile_def)

lemma column_sums_dip_mask:
  "column_sums (dip_mask h w d) = map (\<lambda>j. if j = d then 0 else int h) [0..<w]"
proof -
  have px: "pixels (dip_mask h w d) ! (i * w + j) = (j \<noteq> d)" if "i < h" "j < w" for i j
  proof -
    have "i * w + j < h * w"
    proof -
      have "i * w + j < i * w + w" using that(2) by simp
      also have "\<dots> = Suc i * w" by simp
      also have "\<dots> \<le> h * w" using that(1) by (intro mult_le_mono1) simp
      finally show ?thesis .
    qed
    then show ?thesis using that(2) by (simp add: dip_mask_def)
  qed
  have col: "(\<Sum>i \<leftarrow> [0..<h]. if pixels (dip_mask h w d) ! (i * w + j) then 1 else 0)
               = (if j = d then 0 else int h)" if "j < w" for j
  proof -
    have "map (\<lambda>i. if pixels (dip_mask h w d) ! (i * w + j) then 1 else 0 :: int) [0..<h]
            = map (\<lambda>i. if j = d then 0 else 1) [0..<h]"
      using px[OF _ that] by (intro map_cong) simp_all
    then have "(\<Sum>i \<leftarrow> [0..<h]. if pixels (dip_mask h w d) ! (i * w + j) then 1 else 0)
                 = (\<Sum>i \<leftarrow> [0..<h]. if j = d then 0 else (1 :: int))"
      by (rule arg_cong)
    then show ?thesis by (simp add: sum_list_triv)
  qed
  show ?thesis
    using col by (simp add: column_sums_def dip_mask_def)
qed

lemma profile_100_16_7:
  "column_sums (dip_mask 100 16 7) = replicate 7 100 @ [0] @ replicate 8 100"
  unfolding column_sums_dip_mask by code_simp

lemma profile_100_18_8:
  "column_sums (dip_mask 100 18 8) = replicate 8 100 @ [0] @ replicate 9 100"
  unfolding column_sums_dip_mask by code_simp

lemma profile_1_18_8:
  "column_sums (dip_mask 1 18 8) = replicate 8 1 @ [0] @ replicate 9 1"
  unfolding column_sums_dip_mask by code_simp

lemma profile_1_16_7:
  "column_sums (dip_mask 1 16 7) = replicate 7 1 @ [0] @ replicate 8 1"
  unfolding column_sums_dip_mask by code_simp

lemma window_100_16_7:
  "middle_profile scipy_library (dip_mask 100 16 7) 16 = [92, 92, 91, 92, 92]"
  unfolding middle_profile_def profile_100_16_7 by code_simp

lemma window_100_18_8:
  "middle_profile scipy_library (dip_mask 100 18 8) 18 = [92, 92, 91, 92, 92, 93]"
  unfolding middle_profile_def profile_100_18_8 by code_simp

lemma window_1_18_8:
  "middle_profile scipy_library (dip_mask 1 18 8) 18 = [0, 0, 0, 0, 0, 0]"
  unfolding middle_profile_def profile_1_18_8 by code_simp

lemma window_1_16_7:
  "middle_profile scipy_library (dip_mask 1 16 7) 16 = [0, 0, 0, 0, 0]"
  unfolding middle_profile_def profile_1_16_7 by code_simp

text \<open>
  Claim C5, as amended.  For every bone mask and slice height: when the middle-third window
  of the smoothed profile has at most 5 entries, or no index from 2 to length - 3 is strictly
  lower than both neighbours, the Joint Locator returns height div 2;
  otherwise it returns middle_start plus the position of a candidate local minimum whose
  smoothed value is lowest among the candidates, an index inside the middle third.
\<close>

theorem joint_position_cases:
  "(let mp = middle_profile lib bone_mask height in
     (local_minima mp = [] \<or> length mp \<le> 5 \<longrightarrow>
        find_joint_position lib bone_mask height = height div 2)
   \<and> (local_minima mp \<noteq> [] \<and> 5 < length mp \<longrightarrow>
        (\<exists>j \<in> set (local_minima mp).
            find_joint_position lib bone_mask height = height div 3 + j
          \<and> (\<forall>j' \<in> set (local_minima mp). mp ! j \<le> mp ! j')
          \<and> height div 3 \<le> height div 3 + j
          \<and> height div 3 + j < 2 * height div 3)))"
proof -
  define mp where "mp = middle_profile lib bone_mask height"
  have low: "find_joint_position lib bone_mask height = height div 2"
    if "local_minima mp = [] \<or> length mp \<le> 5"
    using that by (auto simp: find_joint_position_unfold mp_def Let_def)
  have high: "\<exists>j \<in> set (local_minima mp).
                find_joint_position lib bone_mask height = height div 3 + j
              \<and> (\<forall>j' \<in> set (local_minima mp). mp ! j \<le> mp ! j')
              \<and> height div 3 \<le> height div 3 + j
              \<and> height div 3 + j < 2 * height div 3"
    if a: "local_minima mp \<noteq> [] \<and> 5 < length mp"
  proof -
    let ?c = "local_minima mp"
    let ?v = "map (\<lambda>j. mp ! j) ?c"
    let ?j = "?c ! argmin ?v"
    have ne: "?v \<noteq> []" using a by simp
    from argmin_least[OF ne] have i: "argmin ?v < length ?c" and m: "?v ! argmin ?v = Min (set ?v)"
      by simp_all
    have jin: "?j \<in> set ?c" using i by simp
    have val: "mp ! ?j = Min (set ?v)" using m i by simp
    have least: "\<forall>j' \<in> set ?c. mp ! ?j \<le> mp ! j'"
      unfolding val by (auto intro!: Min_le)
    have run: "find_joint_position lib bone_mask height = height div 3 + ?j"
      using a by (simp add: find_joint_position_unfold mp_def Let_def)
    have "?j + 2 < length mp" using local_minima_bounds[OF jin] by simp
    moreover have "length mp \<le> 2 * height div 3 - height div 3"
      unfolding mp_def by (rule length_middle_profile)
    ultimately have up: "height div 3 + ?j < 2 * height div 3" by linarith
    show ?thesis
      using jin run least up by (intro bexI[of _ ?j]) simp_all
  qed
  show ?thesis
    unfolding Let_def mp_def[symmetric] using low high by blast
qed

theorem joint_position_cases_witness:
  "middle_profile scipy_library (dip_mask 100 18 8) 18 = [92, 92, 91, 92, 92, 93]
   \<and> local_minima (middle_profile scipy_library (dip_mask 100 18 8) 18) = [2]
   \<and> find_joint_position scipy_library (dip_mask 100 18 8) 18 = 18 div 3 + 2
   \<and> middle_profile scipy_library (dip_mask 1 18 8) 18 = [0, 0, 0, 0, 0, 0]
   \<and> local_minima (middle_profile scipy_library (dip_mask 1 18 8) 18) = []
   \<and> find_joint_position scipy_library (dip_mask 1 18 8) 18 = 18 div 2
   \<and> middle_profile scipy_library (dip_mask 1 16 7) 16 = [0, 0, 0, 0, 0]
   \<and> find_joint_position scipy_library (dip_mask 1 16 7) 16 = 16 div 2"
proof -
  have a: "local_minima (middle_profile scipy_library (dip_mask 100 18 8) 18) = [2]"
    unfolding window_100_18_8 by code_simp
  have b: "local_minima (middle_profile scipy_library (dip_mask 1 18 8) 18) = []"
    unfolding window_1_18_8 by code_simp
  show ?thesis
    using a b window_100_18_8 window_1_18_8 window_1_16_7
      joint_position_cases [of scipy_library "dip_mask 100 18 8" 18]
      joint_position_cases [of scipy_library "dip_mask 1 18 8" 18]
      joint_position_cases [of scipy_library "dip_mask 1 16 7" 16]
    by (simp add: Let_def)
qed

text \<open>
  The claim as stated fails on a window of exactly 5 entries.  For a bone mask of 100 rows
  and 16 columns whose column 7 is empty, SciPy smooths the column sums to a profile whose
  middle third is 92, 92, 91, 92, 92: index 2 is strictly lower than both neighbours, so the
  claim predicts 5 + 2, yet the guard \<^verbatim>\<open>len(middle_profile) > 5\<close> sends the call to
  the fallback and the Joint Locator returns 8.
\<close>

theorem joint_position_counterexample:
  "column_sums (dip_mask 100 16 7) = replicate 7 100 @ [0] @ replicate 8 100
   \<and> middle_profile scipy_library (dip_mask 100 16 7) 16 = [92, 92, 91, 92, 92]
   \<and> local_minima (middle_profile scipy_library (dip_mask 100 16 7) 16) = [2]
   \<and> find_joint_position scipy_library (dip_mask 100 16 7) 16 = 16 div 2
   \<and> find_joint_position scipy_library (dip_mask 100 16 7) 16 \<noteq> 16 div 3 + 2"
proof -
  have a: "local_minima (middle_profile scipy_library (dip_mask 100 16 7) 16) = [2]"
    unfolding window_100_16_7 by code_simp
  have b: "find_joint_position scipy_library (dip_mask 100 16 7) 16 = 16 div 2"
    by (simp add: find_joint_position_unfold window_100_16_7 Let_def)
  show ?thesis using a b profile_100_16_7 window_100_16_7 by simp
qed

section \<open>Landmarks of an empty tibia mask\<close>

lemma count_true_eq_label_absent:
  "l \<notin> set (cells seg) \<Longrightarrow> count_true (eq_label seg l) = 0"
  by (auto simp: count_true_def eq_label_def filter_empty_conv)

text \<open>
  Claim C6.  For every label volume with no voxel labelled 1, every voxel spacing and every
  behaviour of \<^verbatim>\<open>np.mean\<close>, the Tibia Landmark Finder returns
  (None, None, None, None): no landmark in mm and none in voxel form.
\<close>

theorem no_tibia_no_landmarks:
  "1 \<notin> set (cells segmentation_volume) \<Longrightarrow>
   find_tibia_lowest_points np_mean segmentation_volume voxel_sizes = Inr (None, None, None, None)"
  by (simp add: find_tibia_lowest_points_def count_true_eq_label_absent)

theorem no_tibia_no_landmarks_witness:
  "1 \<notin> set (cells \<lparr>shape = (1, 1, 3), cells = [0, 2, 0 :: int]\<rparr>)
   \<and> find_tibia_lowest_points mean_sequential \<lparr>shape = (1, 1, 3), cells = [0, 2, 0]\<rparr> (1, 1, 1)
       = Inr (None, None, None, None)"
  using no_tibia_no_landmarks [of "\<lparr>shape = (1, 1, 3), cells = [0, 2, 0]\<rparr>" mean_sequential "(1, 1, 1)"]
  by simp

section \<open>Slice segmenter and volume assembler\<close>

lemma segment_slice_cases:
  assumes "pixels slice_data \<noteq> []"
  shows "(Max (set (pixels slice_data)) < bone_threshold \<longrightarrow>
            segment_slice lib slice_data bone_threshold = Inr None)
       \<and> (\<not> Max (set (pixels slice_data)) < bone_threshold \<longrightarrow>
            (\<exists>femur_mask tibia_mask.
               segment_slice lib slice_data bone_threshold = Inr (Some (femur_mask, tibia_mask))))"
  using assms by (simp add: segment_slice_def np_max_def bind_result_def Let_def)

lemma segment_slice_empty:
  "pixels slice_data = [] \<Longrightarrow> segment_slice lib slice_data bone_threshold = Inl ValueError"
  by (simp add: segment_slice_def np_max_def bind_result_def Let_def)

text \<open>
  Claim C8, as amended.  For every 2-D slice with at least one pixel: when its maximum
  intensity is below the bone threshold the Slice Segmenter returns (None, None), and the
  Volume Assembler, which calls it with the default threshold 200, returns the label volume
  unchanged for that slice; otherwise the Slice Segmenter returns a pair of masks.
\<close>

theorem slice_segmenter_cases:
  assumes "pixels slice_data \<noteq> []"
  shows "(Max (set (pixels slice_data)) < bone_threshold \<longrightarrow>
            segment_slice lib slice_data bone_threshold = Inr None
          \<and> (take_slice data i = Inr slice_data \<and> bone_threshold = 200 \<longrightarrow>
                assemble_slice lib data segmentation_volume i = Inr segmentation_volume))
       \<and> (\<not> Max (set (pixels slice_data)) < bone_threshold \<longrightarrow>
            (\<exists>femur_mask tibia_mask.
               segment_slice lib slice_data bone_threshold = Inr (Some (femur_mask, tibia_mask))))"
proof -
  have "assemble_slice lib data segmentation_volume i = Inr segmentation_volume"
    if "Max (set (pixels slice_data)) < bone_threshold" "take_slice data i = Inr slice_data"
      "bone_threshold = 200"
  proof -
    have "segment_slice lib slice_data 200 = Inr None"
      using segment_slice_cases[OF assms, of 200 lib] that(1,3) by simp
    then show ?thesis using that(2) by (simp add: assemble_slice_def bind_result_def)
  qed
  then show ?thesis using segment_slice_cases[OF assms, of bone_threshold lib] by blast
qed

theorem slice_segmenter_cases_witness:
  "pixels \<lparr>extent = (1, 2), pixels = [100, 150 :: rat]\<rparr> \<noteq> []
   \<and> Max (set (pixels \<lparr>extent = (1, 2), pixels = [100, 150 :: rat]\<rparr>)) < 200
   \<and> take_slice \<lparr>shape = (1, 1, 2), cells = [100, 150 :: rat]\<rparr> 0
        = Inr \<lparr>extent = (1, 2), pixels = [100, 150]\<rparr>
   \<and> segment_slice identity_library \<lparr>extent = (1, 2), pixels = [100, 150]\<rparr> 200 = Inr None
   \<and> assemble_slice identity_library \<lparr>shape = (1, 1, 2), cells = [100, 150]\<rparr>
        \<lparr>shape = (1, 1, 2), cells = [0, 0]\<rparr> 0 = Inr \<lparr>shape = (1, 1, 2), cells = [0, 0]\<rparr>
   \<and> \<not> Max (set (pixels \<lparr>extent = (1, 2), pixels = [100, 300 :: rat]\<rparr>)) < 200
   \<and> (\<exists>femur_mask tibia_mask.
         segment_slice identity_library \<lparr>extent = (1, 2), pixels = [100, 300]\<rparr> 200
           = Inr (Some (femur_mask, tibia_mask)))"
proof -
  have t: "take_slice \<lparr>shape = (1, 1, 2), cells = [100, 150 :: rat]\<rparr> 0
        = Inr \<lparr>extent = (1, 2), pixels = [100, 150]\<rparr>"
    by code_simp
  show ?thesis
    using t
      slice_segmenter_cases [of "\<lparr>extent = (1, 2), pixels = [100, 150]\<rparr>" 200 identity_library
        "\<lparr>shape = (1, 1, 2), cells = [100, 150]\<rparr>" 0 "\<lparr>shape = (1, 1, 2), cells = [0, 0]\<rparr>"]
      slice_segmenter_cases [of "\<lparr>extent = (1, 2), pixels = [100, 300]\<rparr>" 200 identity_library]
    by simp
qed

text \<open>
  The claim as stated fails on a slice without pixels, such as \<^verbatim>\<open>data[:, 0, :]\<close> of a
  volume of shape (0, 1, 3): \<^verbatim>\<open>np.max\<close> raises ValueError whatever the library operators
  return, so the Slice Segmenter returns neither (None, None) nor a pair of masks, and the
  Volume Assembler stops with the same error.
\<close>

theorem slice_segmenter_counterexample:
  "pixels \<lparr>extent = (0, 3), pixels = [] :: rat list\<rparr> = []
   \<and> segment_slice identity_library \<lparr>extent = (0, 3), pixels = []\<rparr> 200 = Inl ValueError
   \<and> take_slice \<lparr>shape = (0, 1, 3), cells = [] :: rat list\<rparr> 0
        = Inr \<lparr>extent = (0, 3), pixels = []\<rparr>
   \<and> assemble_slice identity_library \<lparr>shape = (0, 1, 3), cells = []\<rparr>
        \<lparr>shape = (0, 1, 3), cells = []\<rparr> 0 = Inl ValueError"
proof -
  have t: "take_slice \<lparr>shape = (0, 1, 3), cells = [] :: rat list\<rparr> 0
             = Inr \<lparr>extent = (0, 3), pixels = []\<rparr>"
    by (simp add: take_slice_def)
  have s: "segment_slice identity_library \<lparr>extent = (0, 3), pixels = []\<rparr> 200 = Inl ValueError"
    by (simp add: segment_slice_empty)
  show ?thesis using t s by (simp add: assemble_slice_def bind_result_def)
qed

section \<open>Voxel and millimetre coordinates\<close>

text \<open>
  Claim C7 says that scaling a voxel index by the spacing and dividing back with truncation
  recovers the index.  The code does not achieve this in \<^verbatim>\<open>float64\<close> arithmetic: with
  spacing 0.1 the index 43 becomes 4.3 mm, the quotient 4.3 / 0.1 rounds to
  42.99999999999999, and \<^verbatim>\<open>int\<close> truncates it to 42.
\<close>

theorem roundtrip_loses_voxel:
  "to_mm (tenth, 1, 1) (43, 0, 0) = (4841369599423283 / 1125899906842624, 0, 0)
   \<and> to_voxel (tenth, 1, 1) (Some (to_mm (tenth, 1, 1) (43, 0, 0))) = Inr (Some (42, 0, 0))"
  by code_simp

lemma landmark_roundtrip_fails:
  "find_tibia_lowest_points mean_sequential
     \<lparr>shape = (44, 1, 1), cells = replicate 43 0 @ [1]\<rparr> (tenth, 1, 1)
   = Inr (Some (4841369599423283 / 1125899906842624, 0, 0), None, Some (42, 0, 0), None)"
  by code_simp

section \<open>Medial and lateral lowest points\<close>









end
